theory Spec2Isabelle
  imports Complex_Main
begin

section \<open>Python primitives used by the learning scripts\<close>

text \<open>
  Strings are byte strings (\<open>char list\<close>); Python's \<open>str.lower\<close>, \<open>\s\<close> and
  \<open>str.strip\<close> are modelled on the ASCII range.  Python floats are modelled as exact
  reals, Python's unbounded integers as \<open>int\<close>.
\<close>

definition NL :: char where
  "NL = CHR 0x0A"

definition upper_letters :: string where
  "upper_letters = ''ABCDEFGHIJKLMNOPQRSTUVWXYZ''"

definition lower_letters :: string where
  "lower_letters = ''abcdefghijklmnopqrstuvwxyz''"

definition lower_chr :: "char \<Rightarrow> char" where
  "lower_chr c = (case map_of (zip upper_letters lower_letters) c of Some d \<Rightarrow> d | None \<Rightarrow> c)"

definition lower :: "string \<Rightarrow> string" where
  "lower s = map lower_chr s"

definition is_space :: "char \<Rightarrow> bool" where
  "is_space c = (c \<in> set [CHR 0x09, CHR 0x0A, CHR 0x0B, CHR 0x0C, CHR 0x0D,
                           CHR 0x1C, CHR 0x1D, CHR 0x1E, CHR 0x1F, CHR 0x20])"

definition strip :: "string \<Rightarrow> string" where
  "strip s = rev (dropWhile is_space (rev (dropWhile is_space s)))"

fun starts_with :: "string \<Rightarrow> string \<Rightarrow> bool" where
  "starts_with [] s = True"
| "starts_with (p # ps) [] = False"
| "starts_with (p # ps) (c # cs) = (p = c \<and> starts_with ps cs)"

text \<open>\<open>kw in s\<close> on strings: substring containment.\<close>

fun contains :: "string \<Rightarrow> string \<Rightarrow> bool" where
  "contains kw [] = (kw = [])"
| "contains kw (c # cs) = (starts_with kw (c # cs) \<or> contains kw cs)"

text \<open>Index of the first occurrence of a literal (\<open>re.search\<close> of a pattern without
  metacharacters), \<open>None\<close> when there is none.\<close>

fun find_sub :: "string \<Rightarrow> string \<Rightarrow> nat option" where
  "find_sub p [] = (if p = [] then Some 0 else None)"
| "find_sub p (c # cs) =
     (if starts_with p (c # cs) then Some 0
      else (case find_sub p cs of None \<Rightarrow> None | Some i \<Rightarrow> Some (Suc i)))"

fun join :: "string \<Rightarrow> string list \<Rightarrow> string" where
  "join sep [] = []"
| "join sep [x] = x"
| "join sep (x # y # ys) = x @ sep @ join sep (y # ys)"

definition digit :: "nat \<Rightarrow> char" where
  "digit d = ''0123456789'' ! d"

function str_nat :: "nat \<Rightarrow> string" where
  "str_nat n = (if n < 10 then [digit n] else str_nat (n div 10) @ [digit (n mod 10)])"
  by pat_completeness auto
termination
  by (relation "measure id") auto

definition str_int :: "int \<Rightarrow> string" where
  "str_int i = (if i < 0 then CHR ''-'' # str_nat (nat (- i)) else str_nat (nat i))"

text \<open>Formatting done by the Python runtime and not by code of the repository:
  \<open>{x:.2f}\<close> on a float and \<open>str\<close> of a list of strings.\<close>

record py_format =
  fmt_2f :: "real \<Rightarrow> string"
  str_of_list :: "string list \<Rightarrow> string"

text \<open>One reading of \<open>datetime.now()\<close> per call, in the three renderings the scripts
  use: \<open>strftime('%Y%m%d_%H%M%S')\<close>, \<open>isoformat()\<close> and
  \<open>strftime('%Y-%m-%d %H:%M:%S')\<close>.\<close>

record clock =
  stamp :: string
  iso :: string
  human :: string

section \<open>Regular expressions as the scripts use them\<close>

text \<open>
  The fragment of Python's \<open>re\<close> that occurs in the scripts: literal characters,
  \<open>.\<close> and \<open>\s\<close>, greedy and lazy stars over one of these classes, alternation,
  \<open>$\<close> and capture groups, matched by backtracking in Python's priority order.
\<close>

datatype cls = Any | Space

datatype rx = Chr char | Cls cls | Eps | End | Seq rx rx | Alt rx rx | Star cls bool | Grp rx

datatype frame = R rx | Close

record re_flags =
  ignorecase :: bool
  dotall :: bool

definition chr_ok :: "re_flags \<Rightarrow> char \<Rightarrow> char \<Rightarrow> bool" where
  "chr_ok fl p c = (if ignorecase fl then lower_chr p = lower_chr c else p = c)"

fun cls_ok :: "re_flags \<Rightarrow> cls \<Rightarrow> char \<Rightarrow> bool" where
  "cls_ok fl Any c = (dotall fl \<or> c \<noteq> NL)"
| "cls_ok fl Space c = is_space c"

fun rsz :: "rx \<Rightarrow> nat" where
  "rsz (Seq a b) = Suc (rsz a + rsz b)"
| "rsz (Alt a b) = Suc (rsz a + rsz b)"
| "rsz (Grp a) = Suc (Suc (rsz a))"
| "rsz _ = 1"

fun fsz :: "frame \<Rightarrow> nat" where
  "fsz (R r) = rsz r"
| "fsz Close = 1"

type_synonym caps = "string list \<times> string option"

text \<open>\<open>m fl k cs s\<close> matches the pending frames \<open>k\<close> at the start of \<open>s\<close>; \<open>cs\<close>
  holds the groups closed so far and the text at which the open group started.  The
  result is the captured groups and the unread rest of \<open>s\<close>.\<close>

function m :: "re_flags \<Rightarrow> frame list \<Rightarrow> caps \<Rightarrow> string \<Rightarrow> (string list \<times> string) option" where
  "m fl [] cs s = Some (fst cs, s)"
| "m fl (Close # k) cs s =
     m fl k (fst cs @ [case snd cs of Some so \<Rightarrow> take (length so - length s) so | None \<Rightarrow> []], None) s"
| "m fl (R (Chr p) # k) cs s =
     (case s of [] \<Rightarrow> None | c # r \<Rightarrow> if chr_ok fl p c then m fl k cs r else None)"
| "m fl (R (Cls a) # k) cs s =
     (case s of [] \<Rightarrow> None | c # r \<Rightarrow> if cls_ok fl a c then m fl k cs r else None)"
| "m fl (R Eps # k) cs s = m fl k cs s"
| "m fl (R End # k) cs s = (if s = [] \<or> s = [NL] then m fl k cs s else None)"
| "m fl (R (Seq a b) # k) cs s = m fl (R a # R b # k) cs s"
| "m fl (R (Alt a b) # k) cs s =
     (case m fl (R a # k) cs s of Some res \<Rightarrow> Some res | None \<Rightarrow> m fl (R b # k) cs s)"
| "m fl (R (Star a g) # k) cs s =
     (if g then
        (case s of
           [] \<Rightarrow> m fl k cs s
         | c # r \<Rightarrow>
             if cls_ok fl a c then
               (case m fl (R (Star a g) # k) cs r of Some res \<Rightarrow> Some res | None \<Rightarrow> m fl k cs s)
             else m fl k cs s)
      else
        (case m fl k cs s of
           Some res \<Rightarrow> Some res
         | None \<Rightarrow>
             (case s of [] \<Rightarrow> None
              | c # r \<Rightarrow> if cls_ok fl a c then m fl (R (Star a g) # k) cs r else None)))"
| "m fl (R (Grp a) # k) cs s = m fl (R a # Close # k) (fst cs, Some s) s"
  by pat_completeness auto
termination
  by (relation "measures [\<lambda>(fl, k, cs, s). length s, \<lambda>(fl, k, cs, s). sum_list (map fsz k)]") auto

definition seq :: "rx list \<Rightarrow> rx" where
  "seq rs = foldr Seq rs Eps"

definition lit :: "string \<Rightarrow> rx" where
  "lit s = seq (map Chr s)"

text \<open>The pieces the patterns are written with: \<open>\s+\<close>, \<open>\s*\<close>, \<open>.*\<close>, \<open>.*?\<close>,
  \<open>(.*?)\<close>, \<open>(.*)\<close>, \<open>(?:\.|$)\<close> and \<open>x?\<close>.\<close>

definition sp_plus :: rx where "sp_plus = Seq (Cls Space) (Star Space True)"
definition sp_star :: rx where "sp_star = Star Space True"
definition any_star :: rx where "any_star = Star Any True"
definition any_lazy :: rx where "any_lazy = Star Any False"
definition grp_lazy :: rx where "grp_lazy = Grp (Star Any False)"
definition grp_greedy :: rx where "grp_greedy = Grp (Star Any True)"
definition dot_or_end :: rx where "dot_or_end = Alt (Chr CHR ''.'') End"
definition opt :: "rx \<Rightarrow> rx" where "opt r = Alt r Eps"

definition no_flags :: re_flags where
  "no_flags = \<lparr>ignorecase = False, dotall = False\<rparr>"

definition flag_i :: re_flags where
  "flag_i = \<lparr>ignorecase = True, dotall = False\<rparr>"

definition flag_is :: re_flags where
  "flag_is = \<lparr>ignorecase = True, dotall = True\<rparr>"

text \<open>\<open>re.search(r, s)\<close> as a truth value: some position of \<open>s\<close> starts a match.\<close>

fun re_search :: "re_flags \<Rightarrow> rx \<Rightarrow> string \<Rightarrow> bool" where
  "re_search fl r [] = (m fl [R r] ([], None) [] \<noteq> None)"
| "re_search fl r (c # s) = (m fl [R r] ([], None) (c # s) \<noteq> None \<or> re_search fl r s)"

text \<open>\<open>re.findall(r, s)\<close>: the groups of the successive leftmost matches.  After an
  empty match the scan moves one character on; every pattern of the scripts starts with
  a literal, so none of them matches the empty string.\<close>

function findall :: "re_flags \<Rightarrow> rx \<Rightarrow> string \<Rightarrow> string list list" where
  "findall fl r s =
     (case m fl [R r] ([], None) s of
        Some (gs, rest) \<Rightarrow>
          gs # (if length rest < length s then findall fl r rest
                else (case s of [] \<Rightarrow> [] | c # t \<Rightarrow> findall fl r t))
      | None \<Rightarrow> (case s of [] \<Rightarrow> [] | c # t \<Rightarrow> findall fl r t))"
  by pat_completeness auto
termination
  by (relation "measure (\<lambda>(fl, r, s). length s)") auto

declare findall.simps [simp del]

section \<open>The pattern store\<close>

datatype feedback = Positive | Negative | Correction | Neutral

record feedback_entry =
  feedback_type :: feedback
  adjustment :: real
  timestamp :: string
  user_text :: string

text \<open>The value under \<open>"pattern"\<close>: a string for a template with one group, a list
  (a tuple before it is written as JSON) for a template with two.\<close>

datatype pat = PStr string | PList "string list"

text \<open>A stored entity is a JSON object; a key that is absent is \<open>None\<close>.\<close>

record entity =
  e_id :: "string option"
  e_type :: "string option"
  correction_type :: "string option"
  pattern :: "pat option"
  original_text :: "string option"
  content :: "string option"
  e_context :: "string list option"
  confidence :: "real option"
  created :: "string option"
  applied_count :: "int option"
  success_count :: "int option"
  last_updated :: "string option"
  feedback_history :: "feedback_entry list option"
  promoted_to_claude_md :: "bool option"
  promotion_date :: "string option"
  promotion_confidence :: "real option"

record relation =
  rel_from :: string
  rel_to :: string
  rel_type :: string
  rel_created :: string

text \<open>A Python dict keeps insertion order: an association list, read at the first
  entry of a key.\<close>

type_synonym 'v dict = "(string \<times> 'v) list"

definition dict_has :: "string \<Rightarrow> 'v dict \<Rightarrow> bool" where
  "dict_has k d = (map_of d k \<noteq> None)"

fun dict_update :: "string \<Rightarrow> ('v \<Rightarrow> 'v) \<Rightarrow> 'v dict \<Rightarrow> 'v dict" where
  "dict_update k f [] = []"
| "dict_update k f ((k', v) # d) =
     (if k = k' then (k', f v) # d else (k', v) # dict_update k f d)"

text \<open>\<open>d[k] = v\<close>: in place when the key exists, at the end otherwise.\<close>

fun dict_set :: "string \<Rightarrow> 'v \<Rightarrow> 'v dict \<Rightarrow> 'v dict" where
  "dict_set k v [] = [(k, v)]"
| "dict_set k v ((k', v') # d) =
     (if k = k' then (k', v) # d else (k', v') # dict_set k v d)"

record memory =
  entities :: "entity dict option"
  relations :: "relation list option"
  corrections :: "string list option"
  stats :: "int dict option"
  metadata :: "string dict option"

text \<open>\<open>memory.get("entities", {})\<close>.\<close>

definition get_entities :: "memory \<Rightarrow> entity dict" where
  "get_entities mem = (case entities mem of None \<Rightarrow> [] | Some es \<Rightarrow> es)"

datatype py_exc = OSError | JSONDecodeError | UnicodeDecodeError | KeyError string

text \<open>The file behind \<open>MEMORY_FILE\<close>: absent, not openable, bytes that do not decode
  as text, text that is not JSON, or a store document.\<close>

datatype store_file = Missing | Unreadable | Undecodable | Malformed | Doc memory

record fs =
  memory_file :: store_file
  claude_md :: "string option"
  backups :: "string \<rightharpoonup> string"

text \<open>\<open>with open(MEMORY_FILE) as f: json.load(f)\<close>.\<close>

fun read_json :: "store_file \<Rightarrow> py_exc + memory" where
  "read_json Missing = Inl OSError"
| "read_json Unreadable = Inl OSError"
| "read_json Undecodable = Inl UnicodeDecodeError"
| "read_json Malformed = Inl JSONDecodeError"
| "read_json (Doc mem) = Inr mem"

definition file_exists :: "store_file \<Rightarrow> bool" where
  "file_exists f = (f \<noteq> Missing)"

definition clamp :: "real \<Rightarrow> real" where
  "clamp x = max 0 (min 1 x)"

section \<open>confidence_tracker.py\<close>

definition positive_patterns :: "rx list" where
  "positive_patterns = map lit [''good'', ''great'', ''perfect'', ''excellent'', ''thanks'',
     ''correct'', ''right'', ''yes'', ''exactly'', ''nice'']"

definition negative_patterns :: "rx list" where
  "negative_patterns = map lit [''wrong'', ''incorrect'', ''no'', ''actually'', ''don't'',
     ''error'', ''mistake'', ''fix'', ''change'', ''instead'']"

definition correction_patterns :: "rx list" where
  "correction_patterns =
     [seq [lit ''don't'', any_star, lit ''do''],
      seq [lit ''use'', any_star, lit ''instead''],
      seq [lit ''actually'', any_star, lit ''should''],
      seq [lit ''prefer'', any_star, lit ''not''],
      seq [lit ''wrong'', any_star, lit ''should'']]"

definition detect_feedback_type :: "string \<Rightarrow> feedback" where
  "detect_feedback_type user_response =
     (let response_lower = lower user_response in
      if list_ex (\<lambda>p. re_search no_flags p response_lower) correction_patterns then Correction
      else
        let positive_count = length (filter (\<lambda>p. re_search no_flags p response_lower) positive_patterns);
            negative_count = length (filter (\<lambda>p. re_search no_flags p response_lower) negative_patterns)
        in if negative_count > positive_count then Negative
           else if positive_count > 0 then Positive
           else Neutral)"

fun adjustments :: "feedback \<Rightarrow> real" where
  "adjustments Positive = 0.1"
| "adjustments Neutral = 0.0"
| "adjustments Negative = - 0.15"
| "adjustments Correction = - 0.25"

record pattern_update =
  u_id :: string
  old_confidence :: real
  new_confidence :: real
  u_feedback_type :: feedback

definition get_or :: "'a option \<Rightarrow> 'a \<Rightarrow> 'a" where
  "get_or v d = (case v of None \<Rightarrow> d | Some x \<Rightarrow> x)"

text \<open>The body of the loop over \<open>pattern_ids\<close>, for an id that is in the store.\<close>

definition tracker_update_entity :: "clock \<Rightarrow> feedback \<Rightarrow> string \<Rightarrow> entity \<Rightarrow> entity" where
  "tracker_update_entity now ft user_feedback pat =
     (let old_conf = get_or (confidence pat) 0.5;
          new_conf = max 0.0 (min 1.0 (old_conf + adjustments ft))
      in pat\<lparr>confidence := Some new_conf,
             last_updated := Some (iso now),
             applied_count := Some (get_or (applied_count pat) 0 + 1),
             success_count :=
               (if ft \<in> set [Positive, Neutral] then Some (get_or (success_count pat) 0 + 1)
                else success_count pat),
             feedback_history :=
               Some (get_or (feedback_history pat) [] @
                 [\<lparr>feedback_type = ft, adjustment = adjustments ft, timestamp = iso now,
                   user_text = take 100 user_feedback\<rparr>])\<rparr>)"

fun update_loop ::
  "clock \<Rightarrow> feedback \<Rightarrow> string \<Rightarrow> string list \<Rightarrow> memory \<times> pattern_update list
     \<Rightarrow> memory \<times> pattern_update list" where
  "update_loop now ft user_feedback [] st = st"
| "update_loop now ft user_feedback (pattern_id # ids) (mem, updated) =
     (case map_of (get_entities mem) pattern_id of
        None \<Rightarrow> update_loop now ft user_feedback ids (mem, updated)
      | Some pat \<Rightarrow>
          update_loop now ft user_feedback ids
            (mem\<lparr>entities :=
                   Some (dict_update pattern_id (tracker_update_entity now ft user_feedback)
                           (get_entities mem))\<rparr>,
             updated @
               [\<lparr>u_id = pattern_id,
                 old_confidence = get_or (confidence pat) 0.5,
                 new_confidence = max 0.0 (min 1.0 (get_or (confidence pat) 0.5 + adjustments ft)),
                 u_feedback_type = ft\<rparr>]))"

text \<open>What \<open>update_pattern_confidence\<close> returns: one of the two messages, or the report
  that \<open>_format_confidence_update_report\<close> renders from the updates and the
  classification.\<close>

datatype tracker_result = No_memory_file | Error_reading | Report "pattern_update list" feedback

definition update_pattern_confidence ::
  "clock \<Rightarrow> string list \<Rightarrow> string \<Rightarrow> fs \<Rightarrow> tracker_result \<times> fs" where
  "update_pattern_confidence now pattern_ids user_feedback st =
     (if \<not> file_exists (memory_file st) then (No_memory_file, st)
      else
        (case read_json (memory_file st) of
           Inl e \<Rightarrow> (Error_reading, st)
         | Inr mem \<Rightarrow>
             (let ft = detect_feedback_type user_feedback;
                  res = update_loop now ft user_feedback pattern_ids (mem, [])
              in (Report (snd res) ft, st\<lparr>memory_file := Doc (fst res)\<rparr>))))"

section \<open>memory_learn.py\<close>

text \<open>\<open>load_memory\<close>: only \<open>OSError\<close> and \<open>json.JSONDecodeError\<close> are caught; any
  other exception of the read reaches the caller.  The directory of the store is taken to
  exist (\<open>ensure_memory_dir\<close> succeeds).\<close>

definition default_memory :: "clock \<Rightarrow> memory" where
  "default_memory now =
     \<lparr>entities = Some [], relations = Some [], corrections = Some [], stats = None,
      metadata = Some [(''created'', iso now), (''version'', ''1.0'')]\<rparr>"

definition load_memory :: "clock \<Rightarrow> fs \<Rightarrow> py_exc + memory" where
  "load_memory now st =
     (if file_exists (memory_file st) then
        (case read_json (memory_file st) of
           Inr mem \<Rightarrow> Inr mem
         | Inl e \<Rightarrow> if e \<in> set [OSError, JSONDecodeError] then Inr (default_memory now) else Inl e)
      else Inr (default_memory now))"

definition save_memory :: "memory \<Rightarrow> fs \<Rightarrow> fs" where
  "save_memory memory_data st = st\<lparr>memory_file := Doc memory_data\<rparr>"

definition ml_update_entity :: "clock \<Rightarrow> real \<Rightarrow> real \<Rightarrow> entity \<Rightarrow> entity" where
  "ml_update_entity now c adj ent =
     ent\<lparr>confidence := Some (max 0.0 (min 1.0 (c + adj))),
         last_updated := Some (iso now),
         success_count := (if adj > 0 then Some (get_or (success_count ent) 0 + 1) else success_count ent),
         applied_count := Some (get_or (applied_count ent) 0 + 1)\<rparr>"

text \<open>\<open>update_pattern_confidence(entity_id, adjustment)\<close> of memory_learn.py.\<close>

definition ml_update_pattern_confidence :: "clock \<Rightarrow> string \<Rightarrow> real \<Rightarrow> fs \<Rightarrow> py_exc + fs" where
  "ml_update_pattern_confidence now entity_id adj st =
     (case load_memory now st of
        Inl e \<Rightarrow> Inl e
      | Inr mem \<Rightarrow>
          (case entities mem of
             None \<Rightarrow> Inl (KeyError ''entities'')
           | Some es \<Rightarrow>
               (case map_of es entity_id of
                  None \<Rightarrow> Inr st
                | Some ent \<Rightarrow>
                    (case confidence ent of
                       None \<Rightarrow> Inl (KeyError ''confidence'')
                     | Some c \<Rightarrow>
                         Inr (save_memory
                                (mem\<lparr>entities := Some (dict_update entity_id (ml_update_entity now c adj) es)\<rparr>)
                                st)))))"

text \<open>\<open>query_relevant_patterns(current_context)\<close>: the loop over the entities, with the
  \<open>KeyError\<close> of \<open>entity["type"]\<close> and \<open>entity["confidence"]\<close>.\<close>

fun relevant_loop :: "string list \<Rightarrow> entity dict \<Rightarrow> entity list \<Rightarrow> py_exc + entity list" where
  "relevant_loop current_context [] acc = Inr acc"
| "relevant_loop current_context ((k, ent) # es) acc =
     (case e_type ent of
        None \<Rightarrow> Inl (KeyError ''type'')
      | Some t \<Rightarrow>
          if t = ''user_correction'' then
            (if list_ex (\<lambda>ctx. ctx \<in> set current_context) (get_or (e_context ent) []) then
               (case confidence ent of
                  None \<Rightarrow> Inl (KeyError ''confidence'')
                | Some c \<Rightarrow>
                    if c > 0.6 then relevant_loop current_context es (acc @ [ent])
                    else relevant_loop current_context es acc)
             else relevant_loop current_context es acc)
          else relevant_loop current_context es acc)"

definition query_relevant_patterns :: "clock \<Rightarrow> string list \<Rightarrow> fs \<Rightarrow> py_exc + entity list" where
  "query_relevant_patterns now current_context st =
     (case load_memory now st of
        Inl e \<Rightarrow> Inl e
      | Inr mem \<Rightarrow>
          (case entities mem of
             None \<Rightarrow> Inl (KeyError ''entities'')
           | Some es \<Rightarrow> relevant_loop current_context es []))"

section \<open>Sequences of feedback\<close>

text \<open>A feedback event is a call of the tracker's \<open>update_pattern_confidence\<close> or of
  memory_learn's; a call that raises has written nothing.\<close>

datatype event = Feedback clock "string list" string | Adjust clock string real

fun step :: "event \<Rightarrow> fs \<Rightarrow> fs" where
  "step (Feedback now ids txt) st = snd (update_pattern_confidence now ids txt st)"
| "step (Adjust now entity_id adj) st =
     (case ml_update_pattern_confidence now entity_id adj st of Inl e \<Rightarrow> st | Inr st' \<Rightarrow> st')"

fun states_after :: "event list \<Rightarrow> fs \<Rightarrow> fs list" where
  "states_after [] st = []"
| "states_after (ev # evs) st = step ev st # states_after evs (step ev st)"

definition in_unit :: "real option \<Rightarrow> bool" where
  "in_unit v = (case v of None \<Rightarrow> True | Some c \<Rightarrow> 0 \<le> c \<and> c \<le> 1)"

definition store_of :: "fs \<Rightarrow> entity dict" where
  "store_of st = (case memory_file st of Doc mem \<Rightarrow> get_entities mem | _ \<Rightarrow> [])"

definition conf_ok :: "fs \<Rightarrow> bool" where
  "conf_ok st = list_all (\<lambda>(k, ent). in_unit (confidence ent)) (store_of st)"

definition pattern_conf :: "string \<Rightarrow> fs \<Rightarrow> real option" where
  "pattern_conf pid st = (case map_of (store_of st) pid of None \<Rightarrow> None | Some ent \<Rightarrow> confidence ent)"

text \<open>An entity whose confidence is present and within the unit interval.\<close>

definition good :: "entity \<Rightarrow> bool" where
  "good ent = (\<exists>c. confidence ent = Some c \<and> 0 \<le> c \<and> c \<le> 1)"

section \<open>claude_md_updater.py\<close>

record promotable =
  p_id :: string
  p_pattern :: entity
  p_confidence :: real
  p_applications :: int
  p_success_rate :: real

text \<open>The body of the loop of \<open>get_promotable_patterns\<close> for one item of the store.\<close>

definition promotion_candidate :: "string \<times> entity \<Rightarrow> promotable option" where
  "promotion_candidate item =
     (let pattern_id = fst item; pat = snd item in
      if e_type pat = Some ''user_correction'' then
        (let conf = get_or (confidence pat) 0.0;
             apps = get_or (applied_count pat) 0;
             succ = get_or (success_count pat) 0;
             rate = real_of_int succ / real_of_int (max 1 apps)
         in if conf \<ge> 0.9 \<and> apps \<ge> 5 \<and> rate \<ge> 0.8 then
              Some \<lparr>p_id = pattern_id, p_pattern = pat, p_confidence = conf,
                    p_applications = apps, p_success_rate = rate\<rparr>
            else None)
      else None)"

text \<open>\<open>sorted(xs, key=lambda x: x["confidence"], reverse=True)\<close>: a stable sort,
  descending.\<close>

definition sort_by_confidence :: "promotable list \<Rightarrow> promotable list" where
  "sort_by_confidence xs = sort_key (\<lambda>x. - p_confidence x) xs"

definition get_promotable_patterns :: "fs \<Rightarrow> promotable list" where
  "get_promotable_patterns st =
     (if \<not> file_exists (memory_file st) then []
      else
        (case read_json (memory_file st) of
           Inl e \<Rightarrow> []
         | Inr mem \<Rightarrow> sort_by_confidence (List.map_filter promotion_candidate (get_entities mem))))"

text \<open>The symbols of the rule texts, as their UTF-8 bytes.\<close>

definition cross_mark :: string where
  "cross_mark = [CHR 0xE2, CHR 0x9D, CHR 0x8C]"

definition check_mark :: string where
  "check_mark = [CHR 0xE2, CHR 0x9C, CHR 0x85]"

definition warning_sign :: string where
  "warning_sign = [CHR 0xE2, CHR 0x9A, CHR 0xA0, CHR 0xEF, CHR 0xB8, CHR 0x8F]"

definition memo_sign :: string where
  "memo_sign = [CHR 0xF0, CHR 0x9F, CHR 0x93, CHR 0x9D]"

definition brain_sign :: string where
  "brain_sign = [CHR 0xF0, CHR 0x9F, CHR 0xA7, CHR 0xA0]"

text \<open>\<open>f"{pattern_match}"\<close>.\<close>

fun pat_str :: "py_format \<Rightarrow> pat \<Rightarrow> string" where
  "pat_str F (PStr s) = s"
| "pat_str F (PList l) = str_of_list F l"

definition format_pattern_as_rule :: "py_format \<Rightarrow> promotable \<Rightarrow> string" where
  "format_pattern_as_rule F pattern_data =
     (let pat = p_pattern pattern_data;
          ctype = get_or (correction_type pat) [];
          pattern_match = get_or (pattern pat) (PStr []);
          contexts = get_or (e_context pat) [];
          fallback = memo_sign @ '' LEARNED RULE: '' @ pat_str F pattern_match @
                     '' (context: '' @ join '', '' contexts @ '')''
      in if ctype = ''dont_do_instead'' then
           (case pattern_match of
              PList l \<Rightarrow>
                if length l \<ge> 2 then
                  cross_mark @ '' NEVER '' @ l ! 0 @ '' | '' @ check_mark @ '' ALWAYS '' @ l ! 1
                else fallback
            | PStr s \<Rightarrow> fallback)
         else if ctype = ''preference'' then
           check_mark @ '' USER PREFERENCE: '' @ pat_str F pattern_match
         else if ctype = ''context_behavior'' then
           (case pattern_match of
              PList l \<Rightarrow>
                if length l \<ge> 2 then
                  warning_sign @ '' CONTEXT RULE: When '' @ l ! 0 @ '', '' @ l ! 1
                else fallback
            | PStr s \<Rightarrow> fallback)
         else if ctype = ''always_rule'' then check_mark @ '' ALWAYS: '' @ pat_str F pattern_match
         else if ctype = ''never_rule'' then cross_mark @ '' NEVER: '' @ pat_str F pattern_match
         else fallback)"

definition insertion_points :: "(string \<times> string) list" where
  "insertion_points =
     [(''## Development Guidelines'', ''development''),
      (''## Code Standards'', ''coding''),
      (''## Testing'', ''testing''),
      (''## Critical Lessons'', ''lessons''),
      (''## Project-Specific'', ''project'')]"

fun insertion_loop :: "(string \<times> string) list \<Rightarrow> string \<Rightarrow> nat \<times> nat \<times> string" where
  "insertion_loop [] doc = (length doc, length doc, ''end'')"
| "insertion_loop ((header, sect) # rest) doc =
     (case find_sub header doc of
        None \<Rightarrow> insertion_loop rest doc
      | Some i \<Rightarrow>
          (let start = i + length header in
           case find_sub (NL # ''## '') (drop start doc) of
             Some j \<Rightarrow> (start, start + j, sect)
           | None \<Rightarrow> (start, length doc, sect)))"

definition find_insertion_point :: "string \<Rightarrow> nat \<times> nat \<times> string" where
  "find_insertion_point claude_md_content = insertion_loop insertion_points claude_md_content"

definition backup_name :: "clock \<Rightarrow> string" where
  "backup_name now = ''CLAUDE_md_backup_'' @ stamp now @ ''.md''"

text \<open>\<open>create_backup\<close>: the copy goes under its time-stamped name into the backup
  directory, over a file of that name if there is one.\<close>

definition create_backup :: "clock \<Rightarrow> fs \<Rightarrow> string option \<times> fs" where
  "create_backup now st =
     (case claude_md st of
        None \<Rightarrow> (None, st)
      | Some doc \<Rightarrow> (Some (backup_name now), st\<lparr>backups := (backups st)(backup_name now \<mapsto> doc)\<rparr>))"

definition rule_line :: "py_format \<Rightarrow> promotable \<Rightarrow> string" where
  "rule_line F pattern_data =
     ''- '' @ format_pattern_as_rule F pattern_data @ '' (learned: '' @
     fmt_2f F (p_confidence pattern_data) @ '' confidence, '' @
     str_int (p_applications pattern_data) @ '' applications)''"

definition learned_section :: "clock \<Rightarrow> string list \<Rightarrow> string" where
  "learned_section now new_rules =
     [NL, NL] @ ''### '' @ brain_sign @ '' Learned Rules (Auto-Generated from Experience)'' @ [NL] @
     ''*Rules promoted from dynamic learning system based on user corrections*'' @ [NL, NL] @
     join [NL] new_rules @ [NL, NL] @
     ''*Last updated: '' @ human now @ ''*'' @ [NL]"

definition mark_entity :: "clock \<Rightarrow> real \<Rightarrow> entity \<Rightarrow> entity" where
  "mark_entity now conf pat =
     pat\<lparr>promoted_to_claude_md := Some True, promotion_date := Some (iso now),
         promotion_confidence := Some conf\<rparr>"

fun mark_loop :: "clock \<Rightarrow> promotable list \<Rightarrow> memory \<Rightarrow> memory" where
  "mark_loop now [] mem = mem"
| "mark_loop now (pattern_data # rest) mem =
     (if dict_has (p_id pattern_data) (get_entities mem) then
        mark_loop now rest
          (mem\<lparr>entities :=
                 Some (dict_update (p_id pattern_data) (mark_entity now (p_confidence pattern_data))
                         (get_entities mem))\<rparr>)
      else mark_loop now rest mem)"

definition mark_patterns_promoted :: "clock \<Rightarrow> promotable list \<Rightarrow> fs \<Rightarrow> fs" where
  "mark_patterns_promoted now promoted_patterns st =
     (if \<not> file_exists (memory_file st) then st
      else
        (case read_json (memory_file st) of
           Inl e \<Rightarrow> st
         | Inr mem \<Rightarrow> st\<lparr>memory_file := Doc (mark_loop now promoted_patterns mem)\<rparr>))"

text \<open>The dictionaries \<open>update_claude_md\<close> returns, by their \<open>status\<close>: for a dry run
  the number of rules, the section, the backup path, the rules and the preview; for a
  run that wrote, the number of rules and the backup path.\<close>

datatype promote_result =
    No_patterns
  | Error_not_found
  | Dry_run nat string string "string list" string
  | Success nat string

text \<open>\<open>str(backup_path)\<close>.\<close>

definition str_path :: "string option \<Rightarrow> string" where
  "str_path p = (case p of None \<Rightarrow> ''None'' | Some q \<Rightarrow> q)"

definition update_claude_md :: "py_format \<Rightarrow> clock \<Rightarrow> bool \<Rightarrow> fs \<Rightarrow> promote_result \<times> fs" where
  "update_claude_md F now dry_run st =
     (let promotable_patterns = get_promotable_patterns st in
      if promotable_patterns = [] then (No_patterns, st)
      else
        (case claude_md st of
           None \<Rightarrow> (Error_not_found, st)
         | Some original_content \<Rightarrow>
             (let bk = create_backup now st;
                  backup_path = fst bk;
                  st1 = snd bk;
                  new_rules = map (rule_line F) promotable_patterns;
                  ip = find_insertion_point original_content;
                  insert_start = fst ip;
                  insert_end = fst (snd ip);
                  sect = snd (snd ip);
                  section_text = learned_section now new_rules;
                  new_content = take insert_start original_content @ section_text @
                                drop insert_end original_content
              in if dry_run then
                   (Dry_run (length new_rules) sect (str_path backup_path) new_rules section_text, st1)
                 else
                   (Success (length new_rules) (str_path backup_path),
                    mark_patterns_promoted now promotable_patterns
                      (st1\<lparr>claude_md := Some new_content\<rparr>)))))"

datatype rollback_result = Rollback_error | Rollback_success string

text \<open>\<open>rollback_to_backup\<close>, for a path in the backup directory.\<close>

definition rollback_to_backup :: "string \<Rightarrow> fs \<Rightarrow> rollback_result \<times> fs" where
  "rollback_to_backup backup_path st =
     (case backups st backup_path of
        None \<Rightarrow> (Rollback_error, st)
      | Some doc \<Rightarrow> (Rollback_success backup_path, st\<lparr>claude_md := Some doc\<rparr>))"

text \<open>Successive runs of \<open>update_claude_md(dry_run=False)\<close>: each run's result and the
  state it leaves.\<close>

fun promote_runs :: "py_format \<Rightarrow> clock list \<Rightarrow> fs \<Rightarrow> (promote_result \<times> fs) list" where
  "promote_runs F [] st = []"
| "promote_runs F (now # nows) st =
     update_claude_md F now False st # promote_runs F nows (snd (update_claude_md F now False st))"

text \<open>An entity and a promotable pattern without the three promotion fields.\<close>

definition unmarked :: "entity \<Rightarrow> entity" where
  "unmarked ent = ent\<lparr>promoted_to_claude_md := None, promotion_date := None, promotion_confidence := None\<rparr>"

definition unmarked_p :: "promotable \<Rightarrow> promotable" where
  "unmarked_p p = p\<lparr>p_pattern := unmarked (p_pattern p)\<rparr>"

definition unmarked_store :: "entity dict \<Rightarrow> entity dict" where
  "unmarked_store es = map (\<lambda>(k, ent). (k, unmarked ent)) es"

definition promotable_of :: "entity dict \<Rightarrow> promotable list" where
  "promotable_of es = sort_by_confidence (List.map_filter promotion_candidate es)"

definition marked_at :: "clock \<Rightarrow> entity \<Rightarrow> bool" where
  "marked_at now ent = (promoted_to_claude_md ent = Some True \<and> promotion_date ent = Some (iso now))"

section \<open>query_patterns.py\<close>

text \<open>What \<open>query_patterns\<close> returns: one of its four messages, or the report, which
  gives the number of matching patterns and lists the first five of them.\<close>

datatype query_result =
    Q_no_memory_file
  | Q_error_reading
  | Q_no_corrections
  | Q_no_matching
  | Q_found nat "entity list"

text \<open>\<open>if context_keywords:\<close> and \<open>if correction_type:\<close>: \<open>None\<close> and the empty value
  are false.\<close>

definition truthy :: "'a list option \<Rightarrow> bool" where
  "truthy v = (case v of None \<Rightarrow> False | Some x \<Rightarrow> x \<noteq> [])"

definition matches_keywords :: "string list \<Rightarrow> entity \<Rightarrow> bool" where
  "matches_keywords kws c =
     (let correction_contexts = map lower (get_or (e_context c) [])
      in list_ex (\<lambda>kw. kw \<in> set correction_contexts) kws)"

definition sort_corrections :: "entity list \<Rightarrow> entity list" where
  "sort_corrections cs = sort_key (\<lambda>x. - get_or (confidence x) 0) cs"

definition query_patterns :: "string list option \<Rightarrow> string option \<Rightarrow> fs \<Rightarrow> query_result" where
  "query_patterns context_keywords ctype st =
     (if \<not> file_exists (memory_file st) then Q_no_memory_file
      else
        (case read_json (memory_file st) of
           Inl e \<Rightarrow> Q_error_reading
         | Inr mem \<Rightarrow>
             (let cs0 = filter (\<lambda>e. e_type e = Some ''user_correction'') (map snd (get_entities mem))
              in if cs0 = [] then Q_no_corrections
                 else
                   (let cs1 = (if truthy context_keywords
                               then filter (matches_keywords (map lower (get_or context_keywords []))) cs0
                               else cs0);
                        cs2 = (if truthy ctype
                               then filter (\<lambda>c. correction_type c = ctype) cs1
                               else cs1)
                    in if cs2 = [] then Q_no_matching
                       else Q_found (length (sort_corrections cs2)) (take 5 (sort_corrections cs2))))))"

section \<open>enhanced_learn.py\<close>

definition el_default_memory :: memory where
  "el_default_memory =
     \<lparr>entities = Some [], relations = Some [], corrections = None,
      stats = Some [(''total_corrections'', 0)], metadata = None\<rparr>"

definition empty_memory :: memory where
  "empty_memory = \<lparr>entities = None, relations = None, corrections = None, stats = None, metadata = None\<rparr>"

text \<open>The start of \<open>enhanced_learn\<close>: the store as loaded, with the bare \<open>except\<close> and
  the two repairs of a document without \<open>entities\<close> or \<open>stats\<close>.\<close>

definition el_load :: "fs \<Rightarrow> memory" where
  "el_load st =
     (let m0 = (if file_exists (memory_file st) then
                  (case read_json (memory_file st) of Inr mem \<Rightarrow> mem | Inl e \<Rightarrow> el_default_memory)
                else empty_memory);
          m1 = (if entities m0 = None then el_default_memory else m0)
      in if stats m1 = None then m1\<lparr>stats := Some [(''total_corrections'', 0)]\<rparr> else m1)"

definition el_patterns :: "(rx \<times> string) list" where
  "el_patterns =
     [(seq [lit ''don't'', sp_plus, grp_lazy, lit '','', sp_star, grp_greedy], ''dont_do_instead''),
      (seq [lit ''use'', sp_plus, grp_lazy, sp_plus, lit ''instead'', sp_plus, lit ''of'', sp_plus, grp_lazy],
       ''use_instead_of''),
      (seq [lit ''i'', sp_plus, lit ''prefer'', sp_plus, grp_greedy], ''preference''),
      (seq [lit ''when'', sp_plus, grp_lazy, lit '','', sp_star, grp_greedy], ''context_behavior''),
      (seq [lit ''always'', sp_plus, grp_greedy], ''always_rule''),
      (seq [lit ''never'', sp_plus, grp_greedy], ''never_rule'')]"

definition el_context_keywords :: "(string \<times> string list) list" where
  "el_context_keywords =
     [(''urgent'', [''quick'', ''urgent'', ''asap'', ''fast'']),
      (''quality'', [''careful'', ''thorough'', ''comprehensive'']),
      (''coding'', [''function'', ''class'', ''import'', ''test'', ''code'']),
      (''review'', [''pr'', ''review'', ''check'']),
      (''workflow'', [''command'', ''process'', ''commit''])]"

definition detect_contexts :: "(string \<times> string list) list \<Rightarrow> string \<Rightarrow> string list" where
  "detect_contexts table text_lower =
     (let detected = map fst (filter (\<lambda>(c, kws). list_ex (\<lambda>kw. contains kw text_lower) kws) table)
      in if detected = [] then [''general''] else detected)"

text \<open>What \<open>re.findall\<close> gives for one match: the group itself for a template with one
  group, the tuple of the groups otherwise.\<close>

definition to_pat :: "string list \<Rightarrow> pat" where
  "to_pat gs = (case gs of [g] \<Rightarrow> PStr g | _ \<Rightarrow> PList gs)"

record found =
  f_type :: string
  f_match :: pat
  f_text :: string

definition find_corrections :: "string \<Rightarrow> found list" where
  "find_corrections learning_content =
     concat (map (\<lambda>(r, ctype).
                    map (\<lambda>gs. \<lparr>f_type = ctype, f_match = to_pat gs, f_text = learning_content\<rparr>)
                      (findall flag_i r learning_content))
                 el_patterns)"

definition correction_entity :: "clock \<Rightarrow> string \<Rightarrow> string list \<Rightarrow> found \<Rightarrow> entity" where
  "correction_entity now entity_id detected c =
     \<lparr>e_id = Some entity_id, e_type = Some ''user_correction'', correction_type = Some (f_type c),
      pattern = Some (f_match c), original_text = Some (f_text c), content = None,
      e_context = Some detected, confidence = Some 0.8, created = Some (iso now),
      applied_count = Some 0, success_count = Some 0, last_updated = None, feedback_history = None,
      promoted_to_claude_md = None, promotion_date = None, promotion_confidence = None\<rparr>"

definition observation_entity :: "clock \<Rightarrow> string \<Rightarrow> string list \<Rightarrow> string \<Rightarrow> entity" where
  "observation_entity now entity_id detected learning_content =
     \<lparr>e_id = Some entity_id, e_type = Some ''general_observation'', correction_type = None,
      pattern = None, original_text = None, content = Some learning_content,
      e_context = Some detected, confidence = None, created = Some (iso now),
      applied_count = None, success_count = None, last_updated = None, feedback_history = None,
      promoted_to_claude_md = None, promotion_date = None, promotion_confidence = None\<rparr>"

text \<open>The body of the loop \<open>for i, correction in enumerate(corrections_found)\<close>;
  \<open>memory["stats"]["total_corrections"] += 1\<close> raises when the counter is absent.\<close>

definition store_one :: "clock \<Rightarrow> string list \<Rightarrow> nat \<Rightarrow> found \<Rightarrow> memory \<Rightarrow> py_exc + memory" where
  "store_one now detected i c mem =
     (let entity_id = ''correction_'' @ stamp now @ ''_'' @ str_nat i;
          mem1 = mem\<lparr>entities := Some (dict_set entity_id (correction_entity now entity_id detected c)
                                         (get_entities mem))\<rparr>
      in case map_of (get_or (stats mem1) []) ''total_corrections'' of
           None \<Rightarrow> Inl (KeyError ''total_corrections'')
         | Some n \<Rightarrow>
             Inr (mem1\<lparr>stats := Some (dict_set ''total_corrections'' (n + 1) (get_or (stats mem1) []))\<rparr>))"

fun store_loop :: "clock \<Rightarrow> string list \<Rightarrow> nat \<Rightarrow> found list \<Rightarrow> memory \<Rightarrow> py_exc + memory" where
  "store_loop now detected i [] mem = Inr mem"
| "store_loop now detected i (c # cs) mem =
     (case store_one now detected i c mem of
        Inl e \<Rightarrow> Inl e
      | Inr mem' \<Rightarrow> store_loop now detected (Suc i) cs mem')"

text \<open>The two messages \<open>enhanced_learn\<close> returns, with the numbers they show.\<close>

datatype learn_result = Stored_corrections nat int | Stored_observation int

definition enhanced_learn :: "clock \<Rightarrow> string \<Rightarrow> fs \<Rightarrow> (py_exc + learn_result) \<times> fs" where
  "enhanced_learn now learning_content st =
     (let mem = el_load st;
          detected = detect_contexts el_context_keywords (lower learning_content);
          corrections_found = find_corrections learning_content;
          stored =
            (if corrections_found \<noteq> [] then store_loop now detected 0 corrections_found mem
             else
               (let entity_id = ''observation_'' @ stamp now
                in Inr (mem\<lparr>entities :=
                              Some (dict_set entity_id
                                      (observation_entity now entity_id detected learning_content)
                                      (get_entities mem))\<rparr>)))
      in case stored of
           Inl e \<Rightarrow> (Inl e, st)
         | Inr mem' \<Rightarrow>
             (case map_of (get_or (stats mem') []) ''total_corrections'' of
                None \<Rightarrow> (Inl (KeyError ''total_corrections''), st\<lparr>memory_file := Doc mem'\<rparr>)
              | Some total_corrections \<Rightarrow>
                  (Inr (if corrections_found \<noteq> []
                        then Stored_corrections (length corrections_found) total_corrections
                        else Stored_observation total_corrections),
                   st\<lparr>memory_file := Doc mem'\<rparr>)))"

section \<open>auto_correction_detector.py\<close>

fun alt :: "rx list \<Rightarrow> rx" where
  "alt [] = Eps"
| "alt [r] = r"
| "alt (r # rs) = Alt r (alt rs)"

definition two_groups :: "string list \<Rightarrow> string \<Rightarrow> rx" where
  "two_groups ws sep = seq (concat (map (\<lambda>w. [lit w, sp_plus]) ws) @ [grp_lazy, lit sep, sp_star, grp_lazy, dot_or_end])"

definition one_group :: "string list \<Rightarrow> rx" where
  "one_group ws = seq (concat (map (\<lambda>w. [lit w, sp_plus]) ws) @ [grp_lazy, dot_or_end])"

definition between :: "string \<Rightarrow> string \<Rightarrow> rx" where
  "between w1 w2 = seq [lit w1, sp_plus, grp_lazy, sp_plus, lit w2, sp_plus, grp_lazy, dot_or_end]"

definition detector_patterns :: "(string \<times> rx list) list" where
  "detector_patterns =
     [(''dont_do_instead'',
         [two_groups [''don't''] '','', two_groups [''don't''] ''.'',
          two_groups [''avoid''] '','', two_groups [''stop''] '','']),
      (''use_instead'',
         [seq [lit ''use'', sp_plus, grp_lazy, sp_plus, lit ''instead'', sp_plus, lit ''of'', sp_plus,
               grp_lazy, dot_or_end],
          between ''prefer'' ''over'', between ''choose'' ''not'']),
      (''preference'',
         [one_group [''i'', ''prefer''], one_group [''i'', ''like''],
          one_group [''my'', ''preference'', ''is''], one_group [''please'', ''use'']]),
      (''context_behavior'',
         [two_groups [''when''] '','', two_groups [''if''] '','',
          two_groups [''during''] '','', two_groups [''for''] '','']),
      (''always_rule'',
         [one_group [''always''], one_group [''make'', ''sure'', ''to''], one_group [''remember'', ''to'']]),
      (''never_rule'',
         [one_group [''never''], one_group [''don't'', ''ever''], one_group [''avoid'']]),
      (''correction'',
         [seq [lit ''actually'', opt (lit '',''), sp_plus, grp_lazy, dot_or_end],
          seq [lit ''no'', opt (lit '',''), sp_plus, grp_lazy, dot_or_end],
          seq [lit ''wrong'', opt (lit '',''), sp_plus, grp_lazy, dot_or_end],
          seq [lit ''incorrect'', opt (lit '',''), sp_plus, grp_lazy, dot_or_end]]),
      (''mistake_fix'',
         [seq [opt (seq [lit ''that's'', sp_plus]), alt [lit ''wrong'', lit ''incorrect'', lit ''mistake''],
               any_lazy, lit ''should'', sp_plus, lit ''be'', sp_plus, grp_lazy, dot_or_end],
          seq [lit ''fix'', any_lazy, alt [lit ''by'', lit ''to''], sp_plus, grp_lazy, dot_or_end],
          seq [lit ''change'', any_lazy, alt [lit ''to'', lit ''into''], sp_plus, grp_lazy, dot_or_end]])]"

definition detector_context_keywords :: "(string \<times> string list) list" where
  "detector_context_keywords =
     [(''urgent'', [''quick'', ''urgent'', ''asap'', ''immediately'', ''fast'', ''rush'', ''hurry'']),
      (''quality'', [''careful'', ''thorough'', ''comprehensive'', ''detailed'', ''precise'']),
      (''coding'', [''function'', ''class'', ''variable'', ''import'', ''test'', ''code'', ''script'']),
      (''review'', [''pr'', ''review'', ''check'', ''verify'', ''approve'', ''merge'']),
      (''workflow'', [''command'', ''process'', ''step'', ''procedure'', ''protocol'']),
      (''testing'', [''test'', ''testing'', ''spec'', ''coverage'', ''validate'']),
      (''documentation'', [''docs'', ''readme'', ''documentation'', ''comment'']),
      (''git'', [''commit'', ''branch'', ''merge'', ''push'', ''pull'', ''git''])]"

definition confidence_boosts :: "(string \<times> real) list" where
  "confidence_boosts =
     [(''dont_do_instead'', 0.2), (''use_instead'', 0.2), (''always_rule'', 0.1),
      (''never_rule'', 0.1), (''correction'', 0.15)]"

definition calculate_confidence :: "string \<Rightarrow> string \<Rightarrow> real" where
  "calculate_confidence ctype message =
     (let base_confidence = 0.7;
          c0 = base_confidence + get_or (map_of confidence_boosts ctype) 0.0;
          c1 = (if list_ex (\<lambda>w. contains w message) [''always'', ''never'', ''must'', ''should'']
                then c0 + 0.1 else c0);
          c2 = (if contains '','' message \<or> contains ''.'' message then c1 + 0.05 else c1)
      in min 1.0 c2)"

record correction =
  c_type :: string
  raw_match :: "string list"
  c_pattern :: "string list"
  c_original_text :: string
  c_confidence :: real
  c_context :: "string list"
  c_timestamp :: string
  processed :: bool

text \<open>\<open>_deduplicate_corrections\<close>: a stable sort by descending confidence, then the first
  correction of each pattern.  The key \<open>str(correction["pattern"])\<close> is the text of a
  tuple of strings, which determines the tuple; the model compares the tuples.\<close>

fun unique_loop :: "string list list \<Rightarrow> correction list \<Rightarrow> correction list" where
  "unique_loop seen [] = []"
| "unique_loop seen (c # cs) =
     (if c_pattern c \<in> set seen then unique_loop seen cs
      else c # unique_loop (c_pattern c # seen) cs)"

definition deduplicate_corrections :: "correction list \<Rightarrow> correction list" where
  "deduplicate_corrections cs =
     (if cs = [] then cs else unique_loop [] (sort_key (\<lambda>x. - c_confidence x) cs))"

definition detect_corrections :: "clock \<Rightarrow> string \<Rightarrow> correction list" where
  "detect_corrections now message =
     (let message_lower = strip (lower message) in
      deduplicate_corrections
        (concat (map (\<lambda>(ctype, patterns).
                   concat (map (\<lambda>r.
                     map (\<lambda>gs. \<lparr>c_type = ctype, raw_match = gs, c_pattern = gs,
                                 c_original_text = message,
                                 c_confidence = calculate_confidence ctype message_lower,
                                 c_context = detect_contexts detector_context_keywords message_lower,
                                 c_timestamp = iso now, processed = False\<rparr>)
                       (findall flag_is r message_lower)) patterns))
                 detector_patterns)))"

section \<open>Example data\<close>

definition pid0 :: string where
  "pid0 = ''correction_20250101_120000_0''"

definition now0 :: clock where
  "now0 = \<lparr>stamp = ''20250101_120000'', iso = ''2025-01-01T12:00:00'', human = ''2025-01-01 12:00:00''\<rparr>"

definition ent0 :: entity where
  "ent0 = \<lparr>e_id = Some pid0, e_type = Some ''user_correction'', correction_type = Some ''always_rule'',
     pattern = Some (PStr ''run tests''), original_text = Some ''always run tests'', content = None,
     e_context = Some [''coding''], confidence = Some 0.8, created = Some ''2025-01-01T12:00:00'',
     applied_count = Some 0, success_count = Some 0, last_updated = None, feedback_history = None,
     promoted_to_claude_md = None, promotion_date = None, promotion_confidence = None\<rparr>"

definition mem0 :: memory where
  "mem0 = \<lparr>entities = Some [(pid0, ent0)], relations = Some [], corrections = None,
     stats = Some [(''total_corrections'', 1)], metadata = None\<rparr>"

definition st0 :: fs where
  "st0 = \<lparr>memory_file = Doc mem0, claude_md = None, backups = Map.empty\<rparr>"

definition fb0 :: string where
  "fb0 = ''Actually, that's wrong, use X instead''"

definition evs0 :: "event list" where
  "evs0 = replicate 5 (Feedback now0 [pid0] fb0) @ [Adjust now0 pid0 0.3, Adjust now0 pid0 2]"

definition mk_pattern :: "string \<Rightarrow> string \<Rightarrow> real \<Rightarrow> int \<Rightarrow> int \<Rightarrow> entity" where
  "mk_pattern k ty c a s =
     \<lparr>e_id = Some k, e_type = Some ty, correction_type = Some ''always_rule'',
      pattern = Some (PStr ''run tests''), original_text = Some ''always run tests'', content = None,
      e_context = Some [''coding''], confidence = Some c, created = Some ''2025-01-01T12:00:00'',
      applied_count = Some a, success_count = Some s, last_updated = None, feedback_history = None,
      promoted_to_claude_md = None, promotion_date = None, promotion_confidence = None\<rparr>"

definition mem_p :: memory where
  "mem_p = \<lparr>entities = Some
       [(''a'', mk_pattern ''a'' ''user_correction'' 0.95 6 5),
        (''b'', mk_pattern ''b'' ''user_correction'' 0.95 4 5),
        (''c'', mk_pattern ''c'' ''user_correction'' 0.95 6 3),
        (''d'', mk_pattern ''d'' ''user_correction'' 1 10 9)],
     relations = Some [], corrections = None, stats = Some [(''total_corrections'', 4)],
     metadata = None\<rparr>"

definition st_p :: fs where
  "st_p = \<lparr>memory_file = Doc mem_p, claude_md = None, backups = Map.empty\<rparr>"

definition mem_obs :: memory where
  "mem_obs = \<lparr>entities = Some [(''o'', mk_pattern ''o'' ''general_observation'' 0.95 6 5)],
     relations = Some [], corrections = None, stats = Some [(''total_corrections'', 0)],
     metadata = None\<rparr>"

definition st_obs :: fs where
  "st_obs = \<lparr>memory_file = Doc mem_obs, claude_md = None, backups = Map.empty\<rparr>"

text \<open>A formatter for the examples: two decimals of a non-negative number, and a list
  of plain strings in brackets and quotes.\<close>

definition two_decimals :: "real \<Rightarrow> string" where
  "two_decimals x =
     (let n = nat \<lfloor>x * 100 + 1 / 2\<rfloor>
      in str_nat (n div 100) @ ''.'' @ [digit (n mod 100 div 10), digit (n mod 10)])"

definition fmt0 :: py_format where
  "fmt0 = \<lparr>fmt_2f = two_decimals,
            str_of_list = (\<lambda>l. ''['' @ join '', '' (map (\<lambda>s. [CHR 0x27] @ s @ [CHR 0x27]) l) @ '']'')\<rparr>"

definition doc0 :: string where
  "doc0 = ''# Rules'' @ [NL, NL] @ ''## Code Standards'' @ [NL] @ ''Keep functions small.'' @ [NL, NL] @
          ''## Other'' @ [NL] @ ''Notes.'' @ [NL]"

definition st_doc :: fs where
  "st_doc = \<lparr>memory_file = Doc mem_p, claude_md = Some doc0, backups = Map.empty\<rparr>"

definition now1 :: clock where
  "now1 = \<lparr>stamp = ''20250102_090000'', iso = ''2025-01-02T09:00:00'', human = ''2025-01-02 09:00:00''\<rparr>"

definition st_undecodable :: fs where
  "st_undecodable = \<lparr>memory_file = Undecodable, claude_md = None, backups = Map.empty\<rparr>"

definition st_missing :: fs where
  "st_missing = \<lparr>memory_file = Missing, claude_md = None, backups = Map.empty\<rparr>"

definition txt5 :: string where
  "txt5 = ''Always run tests''"

section \<open>Properties of the model\<close>

lemma clamp_bounds: "0 \<le> clamp x \<and> clamp x \<le> 1"
  by (simp add: clamp_def)

lemma map_of_dict_update:
  "map_of (dict_update k f d) k' = (if k' = k then map_option f (map_of d k) else map_of d k')"
  by (induction d) auto

lemma keys_dict_update: "map fst (dict_update k f d) = map fst d"
  by (induction d) auto

lemma get_entities_upd [simp]: "get_entities (mem\<lparr>entities := Some es\<rparr>) = es"
  by (simp add: get_entities_def)

lemma update_loop_keys:
  "update_loop now ft txt ids (mem, ups) = (mem', ups') \<Longrightarrow>
   map fst (get_entities mem') = map fst (get_entities mem)"
proof (induction ids arbitrary: mem ups)
  case Nil
  then show ?case by simp
next
  case (Cons a ids)
  then show ?case
    by (cases "map_of (get_entities mem) a") (auto simp: keys_dict_update dest!: Cons.IH)
qed

lemma update_loop_other:
  "update_loop now ft txt ids (mem, ups) = (mem', ups') \<Longrightarrow> k \<notin> set ids \<Longrightarrow>
   map_of (get_entities mem') k = map_of (get_entities mem) k"
proof (induction ids arbitrary: mem ups)
  case Nil
  then show ?case by simp
next
  case (Cons a ids)
  then show ?case
    by (cases "map_of (get_entities mem) a") (auto simp: map_of_dict_update dest!: Cons.IH)
qed

lemma update_loop_hit:
  "update_loop now ft txt ids (mem, ups) = (mem', ups') \<Longrightarrow> distinct ids \<Longrightarrow> k \<in> set ids \<Longrightarrow>
   map_of (get_entities mem) k = Some e \<Longrightarrow>
   map_of (get_entities mem') k = Some (tracker_update_entity now ft txt e)"
proof (induction ids arbitrary: mem ups)
  case Nil
  then show ?case by simp
next
  case (Cons a ids)
  show ?case
  proof (cases "a = k")
    case True
    with Cons.prems have run: "update_loop now ft txt ids
        (mem\<lparr>entities := Some (dict_update k (tracker_update_entity now ft txt) (get_entities mem))\<rparr>,
         ups @ [\<lparr>u_id = k, old_confidence = get_or (confidence e) 0.5,
            new_confidence = max 0.0 (min 1.0 (get_or (confidence e) 0.5 + adjustments ft)),
            u_feedback_type = ft\<rparr>]) = (mem', ups')" and "k \<notin> set ids"
      by auto
    from update_loop_other[OF this] show ?thesis
      using Cons.prems(4) by (simp add: map_of_dict_update)
  next
    case False
    with Cons.prems have k: "k \<in> set ids" "distinct ids" by auto
    show ?thesis
    proof (cases "map_of (get_entities mem) a")
      case None
      with Cons.prems(1) have "update_loop now ft txt ids (mem, ups) = (mem', ups')" by simp
      from Cons.IH[OF this k(2) k(1) Cons.prems(4)] show ?thesis .
    next
      case (Some b)
      with Cons.prems(1) obtain m1 u1 where
        run: "update_loop now ft txt ids (m1, u1) = (mem', ups')" and
        m1: "m1 = mem\<lparr>entities := Some (dict_update a (tracker_update_entity now ft txt) (get_entities mem))\<rparr>"
        by simp
      have "map_of (get_entities m1) k = Some e"
        using False Cons.prems(4) by (simp add: m1 map_of_dict_update)
      from Cons.IH[OF run k(2) k(1) this] show ?thesis .
    qed
  qed
qed


lemma detect_feedback_type_spec:
  "detect_feedback_type txt =
     (if (\<exists>p \<in> set correction_patterns. re_search no_flags p (lower txt)) then Correction
      else if length (filter (\<lambda>p. re_search no_flags p (lower txt)) negative_patterns)
              > length (filter (\<lambda>p. re_search no_flags p (lower txt)) positive_patterns) then Negative
      else if 0 < length (filter (\<lambda>p. re_search no_flags p (lower txt)) positive_patterns) then Positive
      else Neutral)"
  by (simp add: detect_feedback_type_def Let_def list_ex_iff)

lemma adjustments_spec:
  "adjustments ft = (case ft of Positive \<Rightarrow> 0.10 | Neutral \<Rightarrow> 0 | Negative \<Rightarrow> - 0.15 | Correction \<Rightarrow> - 0.25)"
  by (cases ft) simp_all

text \<open>
  Claim C1.  \<open>update_pattern_confidence\<close> of the tracker, run on a store document and a
  set of pattern ids, classifies the feedback text (correction when one of the correction
  phrasings is found, whatever else the text holds; otherwise negative iff more negative
  keywords than positive ones are found; otherwise positive iff a positive keyword is
  found; otherwise neutral) and, for each supplied id that is in the store, sets the
  confidence to the clamped sum of the old confidence and the delta of the classification
  (+0.10, 0, -0.15, -0.25), adds one to \<open>applied_count\<close>, adds one to
  \<open>success_count\<close> exactly for positive and neutral, and appends one entry to
  \<open>feedback_history\<close>.  Entities under other ids, and the order of the keys, are left
  as they were.
\<close>

theorem apply_feedback_classifies_and_updates:
  assumes run: "update_pattern_confidence now pattern_ids user_feedback st = (res, st')"
    and doc: "memory_file st = Doc mem"
    and ids: "distinct pattern_ids"
    and ft: "ft =
      (if (\<exists>p \<in> set correction_patterns. re_search no_flags p (lower user_feedback)) then Correction
       else if length (filter (\<lambda>p. re_search no_flags p (lower user_feedback)) negative_patterns)
               > length (filter (\<lambda>p. re_search no_flags p (lower user_feedback)) positive_patterns)
            then Negative
       else if 0 < length (filter (\<lambda>p. re_search no_flags p (lower user_feedback)) positive_patterns)
            then Positive
       else Neutral)"
    and delta: "delta = (case ft of Positive \<Rightarrow> 0.10 | Neutral \<Rightarrow> 0 | Negative \<Rightarrow> - 0.15 | Correction \<Rightarrow> - 0.25)"
  shows "\<exists>mem' ups. res = Report ups ft \<and> st' = st\<lparr>memory_file := Doc mem'\<rparr> \<and>
           map fst (get_entities mem') = map fst (get_entities mem) \<and>
           (\<forall>k. k \<notin> set pattern_ids \<longrightarrow> map_of (get_entities mem') k = map_of (get_entities mem) k) \<and>
           (\<forall>k e. k \<in> set pattern_ids \<longrightarrow> map_of (get_entities mem) k = Some e \<longrightarrow>
              (\<exists>e' entry. map_of (get_entities mem') k = Some e' \<and>
                 confidence e' = Some (clamp (get_or (confidence e) 0.5 + delta)) \<and>
                 applied_count e' = Some (get_or (applied_count e) 0 + 1) \<and>
                 success_count e' =
                   (if ft = Positive \<or> ft = Neutral then Some (get_or (success_count e) 0 + 1)
                    else success_count e) \<and>
                 feedback_history e' = Some (get_or (feedback_history e) [] @ [entry]) \<and>
                 feedback_type entry = ft \<and> adjustment entry = delta))"
proof -
  have ft': "detect_feedback_type user_feedback = ft"
    unfolding ft by (rule detect_feedback_type_spec)
  have delta': "adjustments ft = delta"
    unfolding delta by (rule adjustments_spec)
  obtain mem' ups where loop: "update_loop now ft user_feedback pattern_ids (mem, []) = (mem', ups)"
    by (cases "update_loop now ft user_feedback pattern_ids (mem, [])") auto
  from run doc ft' loop have res: "res = Report ups ft" and st': "st' = st\<lparr>memory_file := Doc mem'\<rparr>"
    by (auto simp: update_pattern_confidence_def file_exists_def Let_def)
  have hit: "\<exists>e' entry. map_of (get_entities mem') k = Some e' \<and>
                 confidence e' = Some (clamp (get_or (confidence e) 0.5 + delta)) \<and>
                 applied_count e' = Some (get_or (applied_count e) 0 + 1) \<and>
                 success_count e' =
                   (if ft = Positive \<or> ft = Neutral then Some (get_or (success_count e) 0 + 1)
                    else success_count e) \<and>
                 feedback_history e' = Some (get_or (feedback_history e) [] @ [entry]) \<and>
                 feedback_type entry = ft \<and> adjustment entry = delta"
    if "k \<in> set pattern_ids" "map_of (get_entities mem) k = Some e" for k e
  proof -
    have "map_of (get_entities mem') k = Some (tracker_update_entity now ft user_feedback e)"
      by (rule update_loop_hit[OF loop ids that])
    then show ?thesis
      by (auto simp: tracker_update_entity_def Let_def clamp_def delta')
  qed
  show ?thesis
    using res st' update_loop_keys[OF loop] update_loop_other[OF loop] hit by blast
qed

lemma fb0_class: "detect_feedback_type fb0 = Correction"
  by code_simp

theorem apply_feedback_witness:
  "memory_file st0 = Doc mem0 \<and> distinct [pid0] \<and>
   (\<exists>mem' ups e'. update_pattern_confidence now0 [pid0] fb0 st0 = (Report ups Correction, st0\<lparr>memory_file := Doc mem'\<rparr>) \<and>
      map_of (get_entities mem') pid0 = Some e' \<and> confidence e' = Some 0.55 \<and>
      applied_count e' = Some 1 \<and> success_count e' = Some 0)"
proof -
  have h1: "memory_file st0 = Doc mem0" by (simp add: st0_def)
  have h2: "distinct [pid0]" by simp
  have h3: "Correction =
      (if (\<exists>p \<in> set correction_patterns. re_search no_flags p (lower fb0)) then Correction
       else if length (filter (\<lambda>p. re_search no_flags p (lower fb0)) negative_patterns)
               > length (filter (\<lambda>p. re_search no_flags p (lower fb0)) positive_patterns)
            then Negative
       else if 0 < length (filter (\<lambda>p. re_search no_flags p (lower fb0)) positive_patterns)
            then Positive
       else Neutral)"
    using fb0_class by (simp add: detect_feedback_type_spec)
  have h4: "(- 0.25 :: real) = (case Correction of Positive \<Rightarrow> 0.10 | Neutral \<Rightarrow> 0 | Negative \<Rightarrow> - 0.15 | Correction \<Rightarrow> - 0.25)"
    by simp
  have h0: "update_pattern_confidence now0 [pid0] fb0 st0 =
      (fst (update_pattern_confidence now0 [pid0] fb0 st0), snd (update_pattern_confidence now0 [pid0] fb0 st0))"
    by simp
  have e0: "map_of (get_entities mem0) pid0 = Some ent0"
    by (simp add: mem0_def get_entities_def)
  from apply_feedback_classifies_and_updates[OF h0 h1 h2 h3 h4]
  obtain mem' ups where
    r: "fst (update_pattern_confidence now0 [pid0] fb0 st0) = Report ups Correction"
    and s: "snd (update_pattern_confidence now0 [pid0] fb0 st0) = st0\<lparr>memory_file := Doc mem'\<rparr>"
    and u: "\<forall>k e. k \<in> set [pid0] \<longrightarrow> map_of (get_entities mem0) k = Some e \<longrightarrow>
              (\<exists>e' entry. map_of (get_entities mem') k = Some e' \<and>
                 confidence e' = Some (clamp (get_or (confidence e) 0.5 + (- 0.25))) \<and>
                 applied_count e' = Some (get_or (applied_count e) 0 + 1) \<and>
                 success_count e' =
                   (if Correction = Positive \<or> Correction = Neutral then Some (get_or (success_count e) 0 + 1)
                    else success_count e) \<and>
                 feedback_history e' = Some (get_or (feedback_history e) [] @ [entry]) \<and>
                 feedback_type entry = Correction \<and> adjustment entry = (- 0.25))"
    by blast
  from u e0 obtain e' where
    "map_of (get_entities mem') pid0 = Some e'"
    "confidence e' = Some (clamp (get_or (confidence ent0) 0.5 + (- 0.25)))"
    "applied_count e' = Some (get_or (applied_count ent0) 0 + 1)"
    "success_count e' = success_count ent0"
    by auto
  then have "map_of (get_entities mem') pid0 = Some e' \<and> confidence e' = Some 0.55 \<and>
      applied_count e' = Some 1 \<and> success_count e' = Some 0"
    by (simp add: ent0_def get_or_def clamp_def)
  moreover have "update_pattern_confidence now0 [pid0] fb0 st0 = (Report ups Correction, st0\<lparr>memory_file := Doc mem'\<rparr>)"
    using r s by (metis h0)
  ultimately show ?thesis using h1 h2 by blast
qed

lemma good_tracker: "good (tracker_update_entity now ft txt ent)"
  by (simp add: good_def tracker_update_entity_def Let_def)

lemma good_ml: "good (ml_update_entity now c adj ent)"
  by (simp add: good_def ml_update_entity_def)

lemma good_in_unit: "good ent \<Longrightarrow> in_unit (confidence ent)"
  by (auto simp: good_def in_unit_def)

lemma list_all_dict_update:
  "list_all (\<lambda>(k, ent). in_unit (confidence ent)) d \<Longrightarrow> (\<And>v. good (f v)) \<Longrightarrow>
   list_all (\<lambda>(k, ent). in_unit (confidence ent)) (dict_update k' f d)"
  by (induction d) (auto simp: good_in_unit)

lemma update_loop_conf_ok:
  "update_loop now ft txt ids (mem, ups) = (mem', ups') \<Longrightarrow>
   list_all (\<lambda>(k, ent). in_unit (confidence ent)) (get_entities mem) \<Longrightarrow>
   list_all (\<lambda>(k, ent). in_unit (confidence ent)) (get_entities mem')"
proof (induction ids arbitrary: mem ups)
  case Nil
  then show ?case by simp
next
  case (Cons a ids)
  show ?case
  proof (cases "map_of (get_entities mem) a")
    case None
    with Cons.prems(1) have "update_loop now ft txt ids (mem, ups) = (mem', ups')" by simp
    from Cons.IH[OF this Cons.prems(2)] show ?thesis .
  next
    case (Some b)
    with Cons.prems(1) obtain m1 u1 where
      run: "update_loop now ft txt ids (m1, u1) = (mem', ups')" and
      m1: "m1 = mem\<lparr>entities := Some (dict_update a (tracker_update_entity now ft txt) (get_entities mem))\<rparr>"
      by simp
    have "list_all (\<lambda>(k, ent). in_unit (confidence ent)) (get_entities m1)"
      unfolding m1 get_entities_upd
      by (rule list_all_dict_update[OF Cons.prems(2)]) (rule good_tracker)
    from Cons.IH[OF run this] show ?thesis .
  qed
qed

lemma update_loop_good_kept:
  "update_loop now ft txt ids (mem, ups) = (mem', ups') \<Longrightarrow>
   map_of (get_entities mem) k = Some e \<Longrightarrow> good e \<Longrightarrow>
   \<exists>e'. map_of (get_entities mem') k = Some e' \<and> good e'"
proof (induction ids arbitrary: mem ups e)
  case Nil
  then show ?case by simp
next
  case (Cons a ids)
  show ?case
  proof (cases "map_of (get_entities mem) a")
    case None
    with Cons.prems(1) have "update_loop now ft txt ids (mem, ups) = (mem', ups')" by simp
    from Cons.IH[OF this Cons.prems(2,3)] show ?thesis .
  next
    case (Some b)
    with Cons.prems(1) obtain m1 u1 where
      run: "update_loop now ft txt ids (m1, u1) = (mem', ups')" and
      m1: "m1 = mem\<lparr>entities := Some (dict_update a (tracker_update_entity now ft txt) (get_entities mem))\<rparr>"
      by simp
    have "\<exists>e1. map_of (get_entities m1) k = Some e1 \<and> good e1"
      using Cons.prems(2,3) by (auto simp: m1 map_of_dict_update good_tracker)
    then obtain e1 where "map_of (get_entities m1) k = Some e1" "good e1" by blast
    from Cons.IH[OF run this] show ?thesis .
  qed
qed

lemma update_loop_good_hit:
  "update_loop now ft txt ids (mem, ups) = (mem', ups') \<Longrightarrow> k \<in> set ids \<Longrightarrow>
   map_of (get_entities mem) k = Some e \<Longrightarrow>
   \<exists>e'. map_of (get_entities mem') k = Some e' \<and> good e'"
proof (induction ids arbitrary: mem ups e)
  case Nil
  then show ?case by simp
next
  case (Cons a ids)
  show ?case
  proof (cases "map_of (get_entities mem) a")
    case None
    with Cons.prems have run: "update_loop now ft txt ids (mem, ups) = (mem', ups')" and "k \<in> set ids"
      by auto
    from Cons.IH[OF this Cons.prems(3)] show ?thesis .
  next
    case (Some b)
    with Cons.prems(1) obtain m1 u1 where
      run: "update_loop now ft txt ids (m1, u1) = (mem', ups')" and
      m1: "m1 = mem\<lparr>entities := Some (dict_update a (tracker_update_entity now ft txt) (get_entities mem))\<rparr>"
      by simp
    show ?thesis
    proof (cases "a = k")
      case True
      have "map_of (get_entities m1) k = Some (tracker_update_entity now ft txt e)"
        using Cons.prems(3) True by (simp add: m1 map_of_dict_update)
      from update_loop_good_kept[OF run this good_tracker] show ?thesis .
    next
      case False
      with Cons.prems(2) have k: "k \<in> set ids" by simp
      have "map_of (get_entities m1) k = Some e"
        using Cons.prems(3) False by (simp add: m1 map_of_dict_update)
      from Cons.IH[OF run k this] show ?thesis .
    qed
  qed
qed

lemma step_feedback_store:
  "memory_file st = Doc mem \<Longrightarrow>
   \<exists>mem' ups. update_loop now (detect_feedback_type txt) txt ids (mem, []) = (mem', ups) \<and>
     store_of (step (Feedback now ids txt) st) = get_entities mem'"
  by (cases "update_loop now (detect_feedback_type txt) txt ids (mem, [])")
     (auto simp: update_pattern_confidence_def file_exists_def Let_def store_of_def)

lemma step_feedback_nodoc:
  "(\<And>mem. memory_file st \<noteq> Doc mem) \<Longrightarrow> step (Feedback now ids txt) st = st"
  by (cases "memory_file st") (auto simp: update_pattern_confidence_def file_exists_def)

lemma conf_ok_feedback: "conf_ok st \<Longrightarrow> conf_ok (step (Feedback now ids txt) st)"
proof (cases "\<exists>mem. memory_file st = Doc mem")
  case True
  assume ok: "conf_ok st"
  from True obtain mem where d: "memory_file st = Doc mem" by blast
  from step_feedback_store[OF d] obtain mem' ups where
    l: "update_loop now (detect_feedback_type txt) txt ids (mem, []) = (mem', ups)" and
    s: "store_of (step (Feedback now ids txt) st) = get_entities mem'" by blast
  from ok d have "list_all (\<lambda>(k, ent). in_unit (confidence ent)) (get_entities mem)"
    by (simp add: conf_ok_def store_of_def)
  from update_loop_conf_ok[OF l this] show ?thesis
    by (simp only: conf_ok_def s)
next
  case False
  assume ok: "conf_ok st"
  from False have "step (Feedback now ids txt) st = st"
    by (intro step_feedback_nodoc) auto
  with ok show ?thesis by simp
qed

lemma ml_result:
  "ml_update_pattern_confidence now pid adj st = Inr st' \<Longrightarrow>
   st' = st \<or> (\<exists>mem es ent c. memory_file st = Doc mem \<and> entities mem = Some es \<and>
      map_of es pid = Some ent \<and> confidence ent = Some c \<and>
      st' = st\<lparr>memory_file := Doc (mem\<lparr>entities := Some (dict_update pid (ml_update_entity now c adj) es)\<rparr>)\<rparr>)"
  apply (cases "memory_file st")
  apply (auto simp: ml_update_pattern_confidence_def load_memory_def file_exists_def save_memory_def
      default_memory_def split: sum.splits option.splits if_splits)
  done

lemma conf_ok_adjust: "conf_ok st \<Longrightarrow> conf_ok (step (Adjust now pid adj) st)"
proof (cases "ml_update_pattern_confidence now pid adj st")
  case (Inl a)
  assume "conf_ok st"
  with Inl show ?thesis by simp
next
  case (Inr st')
  assume ok: "conf_ok st"
  from ml_result[OF Inr] show ?thesis
  proof
    assume "st' = st"
    with ok Inr show ?thesis by simp
  next
    assume "\<exists>mem es ent c. memory_file st = Doc mem \<and> entities mem = Some es \<and>
      map_of es pid = Some ent \<and> confidence ent = Some c \<and>
      st' = st\<lparr>memory_file := Doc (mem\<lparr>entities := Some (dict_update pid (ml_update_entity now c adj) es)\<rparr>)\<rparr>"
    then obtain mem es and ent :: entity and c where d: "memory_file st = Doc mem" "entities mem = Some es"
      and st': "st' = st\<lparr>memory_file := Doc (mem\<lparr>entities := Some (dict_update pid (ml_update_entity now c adj) es)\<rparr>)\<rparr>"
      by blast
    from ok d have "list_all (\<lambda>(k, ent). in_unit (confidence ent)) es"
      by (simp add: conf_ok_def store_of_def get_entities_def)
    then have "list_all (\<lambda>(k, ent). in_unit (confidence ent)) (dict_update pid (ml_update_entity now c adj) es)"
      by (rule list_all_dict_update) (rule good_ml)
    then show ?thesis using Inr by (simp add: conf_ok_def store_of_def st')
  qed
qed

lemma conf_ok_step: "conf_ok st \<Longrightarrow> conf_ok (step ev st)"
  by (cases ev) (simp_all only: conf_ok_feedback conf_ok_adjust)

lemma conf_ok_states: "conf_ok st \<Longrightarrow> list_all conf_ok (states_after evs st)"
  by (induction evs arbitrary: st) (simp_all add: conf_ok_step)

lemma feedback_hit_in_unit:
  assumes "pid \<in> set ids" "map_of (store_of st) pid \<noteq> None"
  shows "\<exists>c. pattern_conf pid (step (Feedback now ids txt) st) = Some c \<and> 0 \<le> c \<and> c \<le> 1"
proof -
  from assms(2) obtain mem where d: "memory_file st = Doc mem"
    by (cases "memory_file st") (auto simp: store_of_def)
  from assms(2) d obtain e where e: "map_of (get_entities mem) pid = Some e"
    by (auto simp: store_of_def)
  from step_feedback_store[OF d] obtain mem' ups where
    l: "update_loop now (detect_feedback_type txt) txt ids (mem, []) = (mem', ups)" and
    s: "store_of (step (Feedback now ids txt) st) = get_entities mem'" by blast
  from update_loop_good_hit[OF l assms(1) e] show ?thesis
    by (auto simp: pattern_conf_def s good_def simp del: step.simps)
qed

lemma adjust_hit_in_unit:
  assumes "pattern_conf pid st \<noteq> None"
  shows "\<exists>c. pattern_conf pid (step (Adjust now pid adj) st) = Some c \<and> 0 \<le> c \<and> c \<le> 1"
proof -
  from assms obtain mem where d: "memory_file st = Doc mem"
    by (cases "memory_file st") (auto simp: pattern_conf_def store_of_def)
  from assms d obtain es and ent :: entity and c where es: "entities mem = Some es" "map_of es pid = Some ent" "confidence ent = Some c"
    by (auto simp: pattern_conf_def store_of_def get_entities_def split: option.splits)
  have "step (Adjust now pid adj) st =
      st\<lparr>memory_file := Doc (mem\<lparr>entities := Some (dict_update pid (ml_update_entity now c adj) es)\<rparr>)\<rparr>"
    using d es
    by (simp add: ml_update_pattern_confidence_def load_memory_def file_exists_def save_memory_def)
  then show ?thesis
    using es by (simp add: pattern_conf_def store_of_def map_of_dict_update ml_update_entity_def)
qed

text \<open>
  Claim C3.  Whatever the sequence of feedback events (calls of the tracker's
  \<open>update_pattern_confidence\<close> and of memory_learn's, in any order and number): a store
  whose confidences lie in [0, 1] keeps them there after every single event, and every
  update of a pattern, whatever its confidence was before, leaves it in [0, 1].
\<close>

theorem confidence_stays_in_unit_interval:
  "(conf_ok st \<longrightarrow> list_all conf_ok (states_after evs st)) \<and>
   (\<forall>now ids txt pid. pid \<in> set ids \<and> map_of (store_of st) pid \<noteq> None \<longrightarrow>
      (\<exists>c. pattern_conf pid (step (Feedback now ids txt) st) = Some c \<and> 0 \<le> c \<and> c \<le> 1)) \<and>
   (\<forall>now pid adj. pattern_conf pid st \<noteq> None \<longrightarrow>
      (\<exists>c. pattern_conf pid (step (Adjust now pid adj) st) = Some c \<and> 0 \<le> c \<and> c \<le> 1))"
  using conf_ok_states feedback_hit_in_unit adjust_hit_in_unit by blast

lemma upc_fb0:
  "update_pattern_confidence now0 [pid0] fb0 \<lparr>memory_file = Doc mem, claude_md = c, backups = b\<rparr> =
     (Report (snd (update_loop now0 Correction fb0 [pid0] (mem, []))) Correction,
      \<lparr>memory_file = Doc (fst (update_loop now0 Correction fb0 [pid0] (mem, []))), claude_md = c, backups = b\<rparr>)"
  by (simp add: update_pattern_confidence_def file_exists_def Let_def fb0_class)

lemma evs0_confidences:
  "map (pattern_conf pid0) (states_after evs0 st0) =
      [Some 0.55, Some 0.3, Some 0.05, Some 0, Some 0, Some 0.3, Some 1]"
  by (simp add: evs0_def st0_def mem0_def ent0_def upc_fb0 get_entities_def
      tracker_update_entity_def get_or_def pattern_conf_def store_of_def numeral_eq_Suc
      ml_update_pattern_confidence_def load_memory_def file_exists_def save_memory_def ml_update_entity_def)

theorem confidence_bounds_witness:
  "conf_ok st0 \<and> list_all conf_ok (states_after evs0 st0) \<and>
   map (pattern_conf pid0) (states_after evs0 st0) =
      [Some 0.55, Some 0.3, Some 0.05, Some 0, Some 0, Some 0.3, Some 1]"
proof -
  have h: "conf_ok st0"
    by (simp add: conf_ok_def store_of_def st0_def mem0_def ent0_def get_entities_def in_unit_def)
  from confidence_stays_in_unit_interval[of st0 evs0] h
  have "list_all conf_ok (states_after evs0 st0)" by blast
  with h evs0_confidences show ?thesis by simp
qed

lemma set_map_filter: "set (List.map_filter f xs) = {y. \<exists>x \<in> set xs. f x = Some y}"
  by (induction xs) (auto split: option.splits)

lemma promotion_candidate_Some:
  "promotion_candidate (k, ent) = Some p \<longleftrightarrow>
     (e_type ent = Some ''user_correction'' \<and> 0.9 \<le> get_or (confidence ent) 0 \<and>
      5 \<le> get_or (applied_count ent) 0 \<and>
      0.8 \<le> real_of_int (get_or (success_count ent) 0) / real_of_int (get_or (applied_count ent) 0) \<and>
      p = \<lparr>p_id = k, p_pattern = ent, p_confidence = get_or (confidence ent) 0,
            p_applications = get_or (applied_count ent) 0,
            p_success_rate = real_of_int (get_or (success_count ent) 0) / real_of_int (get_or (applied_count ent) 0)\<rparr>)"
proof (cases "5 \<le> get_or (applied_count ent) 0")
  case True
  then have "max 1 (get_or (applied_count ent) 0) = get_or (applied_count ent) 0" by simp
  then show ?thesis
    by (auto simp: promotion_candidate_def Let_def)
next
  case False
  then show ?thesis by (auto simp: promotion_candidate_def Let_def)
qed

lemma promotable_set:
  "memory_file st = Doc mem \<Longrightarrow>
   set (get_promotable_patterns st) = {p. \<exists>x \<in> set (get_entities mem). promotion_candidate x = Some p}"
  by (simp add: get_promotable_patterns_def file_exists_def sort_by_confidence_def set_map_filter)

lemma promotable_sorted:
  "sorted_wrt (\<lambda>a b. p_confidence a \<ge> p_confidence b) (get_promotable_patterns st)"
proof -
  have "sorted_wrt (\<lambda>a b. p_confidence a \<ge> p_confidence b) (sort_by_confidence xs)" for xs
    using sorted_sort_key[of "\<lambda>x. - p_confidence x" xs]
    by (simp add: sort_by_confidence_def sorted_map)
  then show ?thesis
    by (auto simp: get_promotable_patterns_def split: sum.splits)
qed

text \<open>
  Claim C2, as amended.  A stored record is among the promotable patterns if and only if
  its type is \<open>user_correction\<close> and its confidence is at least 0.9 and its
  \<open>applied_count\<close> is at least 5 and its success rate (\<open>success_count\<close> divided by
  \<open>applied_count\<close>) is at least 0.8, a field that is absent counting as 0; the list of
  promotable patterns is sorted by descending confidence.  The witness holds the three
  patterns of the claim (0.95, 6, 5), (0.95, 4, 5) and (0.95, 6, 3).
\<close>

theorem promotable_iff_thresholds_and_type:
  assumes "memory_file st = Doc mem"
  shows "((\<exists>p \<in> set (get_promotable_patterns st). p_id p = k \<and> p_pattern p = ent) \<longleftrightarrow>
          ((k, ent) \<in> set (get_entities mem) \<and> e_type ent = Some ''user_correction'' \<and>
           0.9 \<le> get_or (confidence ent) 0 \<and> 5 \<le> get_or (applied_count ent) 0 \<and>
           0.8 \<le> real_of_int (get_or (success_count ent) 0) / real_of_int (get_or (applied_count ent) 0))) \<and>
         sorted_wrt (\<lambda>a b. p_confidence a \<ge> p_confidence b) (get_promotable_patterns st)"
proof -
  let ?ok = "e_type ent = Some ''user_correction'' \<and>
           0.9 \<le> get_or (confidence ent) 0 \<and> 5 \<le> get_or (applied_count ent) 0 \<and>
           0.8 \<le> real_of_int (get_or (success_count ent) 0) / real_of_int (get_or (applied_count ent) 0)"
  have ok: "(\<exists>p. promotion_candidate (k, ent) = Some p) \<longleftrightarrow> ?ok"
    unfolding promotion_candidate_Some by blast
  have "(\<exists>p \<in> set (get_promotable_patterns st). p_id p = k \<and> p_pattern p = ent) \<longleftrightarrow>
        ((k, ent) \<in> set (get_entities mem) \<and> (\<exists>p. promotion_candidate (k, ent) = Some p))"
  proof
    assume "\<exists>p \<in> set (get_promotable_patterns st). p_id p = k \<and> p_pattern p = ent"
    then obtain p x where p: "p_id p = k" "p_pattern p = ent" and x: "x \<in> set (get_entities mem)"
      and c: "promotion_candidate x = Some p"
      unfolding promotable_set[OF assms] by blast
    obtain k' ent' where x': "x = (k', ent')" by (cases x)
    from c p have "k' = k" "ent' = ent"
      unfolding x' promotion_candidate_Some by auto
    with x c x' show "(k, ent) \<in> set (get_entities mem) \<and> (\<exists>p. promotion_candidate (k, ent) = Some p)"
      by auto
  next
    assume a: "(k, ent) \<in> set (get_entities mem) \<and> (\<exists>p. promotion_candidate (k, ent) = Some p)"
    then obtain p where c: "promotion_candidate (k, ent) = Some p" by blast
    then have "p_id p = k" "p_pattern p = ent"
      unfolding promotion_candidate_Some by auto
    with a c show "\<exists>p \<in> set (get_promotable_patterns st). p_id p = k \<and> p_pattern p = ent"
      unfolding promotable_set[OF assms] by blast
  qed
  with ok promotable_sorted show ?thesis by blast
qed

lemma promotable_st_p: "map p_id (get_promotable_patterns st_p) = [''d'', ''a'']"
  by (simp add: get_promotable_patterns_def st_p_def mem_p_def file_exists_def get_entities_def
      promotion_candidate_def mk_pattern_def get_or_def sort_by_confidence_def Let_def)

theorem promotable_witness:
  "memory_file st_p = Doc mem_p \<and>
   (\<exists>p \<in> set (get_promotable_patterns st_p). p_id p = ''a'' \<and>
      p_pattern p = mk_pattern ''a'' ''user_correction'' 0.95 6 5) \<and>
   \<not> (\<exists>p \<in> set (get_promotable_patterns st_p). p_id p = ''b'' \<and>
      p_pattern p = mk_pattern ''b'' ''user_correction'' 0.95 4 5) \<and>
   \<not> (\<exists>p \<in> set (get_promotable_patterns st_p). p_id p = ''c'' \<and>
      p_pattern p = mk_pattern ''c'' ''user_correction'' 0.95 6 3) \<and>
   map p_id (get_promotable_patterns st_p) = [''d'', ''a'']"
proof -
  have h: "memory_file st_p = Doc mem_p" by (simp add: st_p_def)
  have a: "\<exists>p \<in> set (get_promotable_patterns st_p). p_id p = ''a'' \<and>
      p_pattern p = mk_pattern ''a'' ''user_correction'' 0.95 6 5"
    using promotable_iff_thresholds_and_type[OF h, of "''a''" "mk_pattern ''a'' ''user_correction'' 0.95 6 5"]
    by (simp add: mem_p_def get_entities_def mk_pattern_def get_or_def)
  have b: "\<not> (\<exists>p \<in> set (get_promotable_patterns st_p). p_id p = ''b'' \<and>
      p_pattern p = mk_pattern ''b'' ''user_correction'' 0.95 4 5)"
    using promotable_iff_thresholds_and_type[OF h, of "''b''" "mk_pattern ''b'' ''user_correction'' 0.95 4 5"]
    by (simp add: mem_p_def get_entities_def mk_pattern_def get_or_def)
  have c: "\<not> (\<exists>p \<in> set (get_promotable_patterns st_p). p_id p = ''c'' \<and>
      p_pattern p = mk_pattern ''c'' ''user_correction'' 0.95 6 3)"
    using promotable_iff_thresholds_and_type[OF h, of "''c''" "mk_pattern ''c'' ''user_correction'' 0.95 6 3"]
    by (simp add: mem_p_def get_entities_def mk_pattern_def get_or_def)
  from h a b c promotable_st_p show ?thesis by blast
qed

text \<open>
  The claim as stated, for every stored record, fails on a record whose type is not
  \<open>user_correction\<close>: it passes the three thresholds and is not promotable.
\<close>

theorem promotable_without_type_counterexample:
  "map_of (get_entities mem_obs) ''o'' = Some (mk_pattern ''o'' ''general_observation'' 0.95 6 5) \<and>
   0.9 \<le> get_or (confidence (mk_pattern ''o'' ''general_observation'' 0.95 6 5)) 0 \<and>
   5 \<le> get_or (applied_count (mk_pattern ''o'' ''general_observation'' 0.95 6 5)) 0 \<and>
   0.8 \<le> real_of_int (get_or (success_count (mk_pattern ''o'' ''general_observation'' 0.95 6 5)) 0) /
          real_of_int (get_or (applied_count (mk_pattern ''o'' ''general_observation'' 0.95 6 5)) 0) \<and>
   get_promotable_patterns st_obs = []"
  by (simp add: get_promotable_patterns_def st_obs_def mem_obs_def file_exists_def get_entities_def
      promotion_candidate_def mk_pattern_def get_or_def sort_by_confidence_def Let_def)

lemma mark_keeps_files:
  "claude_md (mark_patterns_promoted now ps st) = claude_md st \<and>
   backups (mark_patterns_promoted now ps st) = backups st"
  by (simp add: mark_patterns_promoted_def split: sum.splits)

lemma update_claude_md_success:
  assumes "update_claude_md F now False st = (Success n bp, st')"
  shows "\<exists>doc. claude_md st = Some doc \<and> get_promotable_patterns st \<noteq> [] \<and>
           n = length (get_promotable_patterns st) \<and> bp = backup_name now \<and>
           st' = mark_patterns_promoted now (get_promotable_patterns st)
                   (st\<lparr>backups := (backups st)(backup_name now \<mapsto> doc),
                       claude_md := Some (take (fst (find_insertion_point doc)) doc @
                         learned_section now (map (rule_line F) (get_promotable_patterns st)) @
                         drop (fst (snd (find_insertion_point doc))) doc)\<rparr>)"
  using assms
  by (auto simp: update_claude_md_def Let_def create_backup_def str_path_def split: option.splits if_splits)

text \<open>
  Claim C8.  When \<open>update_claude_md(dry_run=False)\<close> has written the rules document
  and returned the path of its backup, \<open>rollback_to_backup\<close> of that path succeeds and
  leaves the rules document with exactly the content it had before the promotion.
\<close>

theorem rollback_restores_document:
  assumes "update_claude_md F now False st = (Success n bp, st')"
  shows "\<exists>doc. claude_md st = Some doc \<and>
           rollback_to_backup bp st' = (Rollback_success bp, st'\<lparr>claude_md := Some doc\<rparr>)"
proof -
  from update_claude_md_success[OF assms] obtain doc where
    d: "claude_md st = Some doc" and bp: "bp = backup_name now" and
    st': "st' = mark_patterns_promoted now (get_promotable_patterns st)
                   (st\<lparr>backups := (backups st)(backup_name now \<mapsto> doc),
                       claude_md := Some (take (fst (find_insertion_point doc)) doc @
                         learned_section now (map (rule_line F) (get_promotable_patterns st)) @
                         drop (fst (snd (find_insertion_point doc))) doc)\<rparr>)"
    by blast
  have "backups st' bp = Some doc"
    unfolding st' bp by (simp add: mark_keeps_files)
  then show ?thesis using d by (simp add: rollback_to_backup_def)
qed

lemma promotable_st_doc: "get_promotable_patterns st_doc = get_promotable_patterns st_p"
  by (simp add: get_promotable_patterns_def st_doc_def st_p_def)

lemma two_decimals_ex: "two_decimals 0.95 = ''0.95''" "two_decimals 1 = ''1.00''"
  by (simp_all add: two_decimals_def Let_def digit_def)

lemma find_doc0: "find_insertion_point doc0 = (26, 49, ''coding'')"
  by code_simp

lemma length_promotable_st_p: "length (get_promotable_patterns st_p) = 2"
  using arg_cong[OF promotable_st_p, of length] by simp

lemma promote_st_doc_result:
  "fst (update_claude_md fmt0 now0 False st_doc) = Success 2 ''CLAUDE_md_backup_20250101_120000.md''"
proof -
  have "get_promotable_patterns st_doc \<noteq> []"
    using length_promotable_st_p by (auto simp: promotable_st_doc)
  then show ?thesis
    by (simp add: update_claude_md_def Let_def create_backup_def str_path_def st_doc_def
        backup_name_def now0_def length_promotable_st_p promotable_st_doc[unfolded st_doc_def])
qed

theorem rollback_witness:
  "update_claude_md fmt0 now0 False st_doc =
     (Success 2 ''CLAUDE_md_backup_20250101_120000.md'', snd (update_claude_md fmt0 now0 False st_doc)) \<and>
   claude_md (snd (rollback_to_backup ''CLAUDE_md_backup_20250101_120000.md''
                     (snd (update_claude_md fmt0 now0 False st_doc)))) = Some doc0"
proof -
  have h: "update_claude_md fmt0 now0 False st_doc =
     (Success 2 ''CLAUDE_md_backup_20250101_120000.md'', snd (update_claude_md fmt0 now0 False st_doc))"
    using promote_st_doc_result by (metis prod.collapse)
  from rollback_restores_document[OF h] have
    "claude_md (snd (rollback_to_backup ''CLAUDE_md_backup_20250101_120000.md''
                     (snd (update_claude_md fmt0 now0 False st_doc)))) = Some doc0"
    by (auto simp: st_doc_def)
  with h show ?thesis by blast
qed

lemma unmarked_mark [simp]: "unmarked (mark_entity now c ent) = unmarked ent"
  by (simp add: unmarked_def mark_entity_def)

lemma unmarked_store_dict_update:
  "unmarked_store (dict_update k (mark_entity now c) es) = unmarked_store es"
  by (induction es) (auto simp: unmarked_store_def)

lemma unmarked_store_mark_loop:
  "unmarked_store (get_entities (mark_loop now ps mem)) = unmarked_store (get_entities mem)"
  by (induction ps arbitrary: mem) (auto simp: unmarked_store_dict_update)

lemma unmarked_fields [simp]:
  "e_type (unmarked ent) = e_type ent" "confidence (unmarked ent) = confidence ent"
  "applied_count (unmarked ent) = applied_count ent" "success_count (unmarked ent) = success_count ent"
  "correction_type (unmarked ent) = correction_type ent" "pattern (unmarked ent) = pattern ent"
  "e_context (unmarked ent) = e_context ent"
  by (simp_all add: unmarked_def)

lemma candidate_unmarked:
  "promotion_candidate (k, unmarked ent) = map_option unmarked_p (promotion_candidate (k, ent))"
proof (cases "promotion_candidate (k, ent)")
  case None
  then show ?thesis
    by (simp add: promotion_candidate_def Let_def split: if_splits)
next
  case (Some p)
  then show ?thesis
    by (auto simp: promotion_candidate_def Let_def unmarked_p_def split: if_splits)
qed

lemma map_filter_unmarked:
  "List.map_filter promotion_candidate (unmarked_store es) =
   map unmarked_p (List.map_filter promotion_candidate es)"
  by (induction es) (auto simp: unmarked_store_def candidate_unmarked split: option.splits)

lemma insort_unmarked:
  "insort_key (\<lambda>x. - p_confidence x) (unmarked_p x) (map unmarked_p xs) =
   map unmarked_p (insort_key (\<lambda>x. - p_confidence x) x xs)"
  by (induction xs) (auto simp: unmarked_p_def)

lemma sort_unmarked:
  "sort_by_confidence (map unmarked_p xs) = map unmarked_p (sort_by_confidence xs)"
  by (induction xs) (auto simp: sort_by_confidence_def insort_unmarked)

lemma promotable_doc: "memory_file st = Doc mem \<Longrightarrow> get_promotable_patterns st = promotable_of (get_entities mem)"
  by (simp add: get_promotable_patterns_def promotable_of_def file_exists_def)

lemma promotable_nonempty_doc:
  "get_promotable_patterns st \<noteq> [] \<Longrightarrow> \<exists>mem. memory_file st = Doc mem"
  by (cases "memory_file st") (auto simp: get_promotable_patterns_def file_exists_def)

lemma promotable_of_unmarked:
  "map unmarked_p (promotable_of es) = promotable_of (unmarked_store es)"
  by (simp add: promotable_of_def map_filter_unmarked sort_unmarked)

lemma promotable_of_cong:
  "unmarked_store es' = unmarked_store es \<Longrightarrow>
   map unmarked_p (promotable_of es') = map unmarked_p (promotable_of es)"
  by (simp add: promotable_of_unmarked)

lemma rule_line_unmarked: "rule_line F (unmarked_p p) = rule_line F p"
  by (simp add: rule_line_def format_pattern_as_rule_def unmarked_p_def Let_def split: pat.splits)

lemma p_id_unmarked: "p_id (unmarked_p p) = p_id p"
  by (simp add: unmarked_p_def)

lemma map_via_unmarked:
  assumes "map unmarked_p xs = map unmarked_p ys"
  shows "map p_id xs = map p_id ys" "map (rule_line F) xs = map (rule_line F) ys" "length xs = length ys"
proof -
  have "map p_id xs = map p_id (map unmarked_p xs)" by (simp add: p_id_unmarked)
  also have "\<dots> = map p_id (map unmarked_p ys)" by (simp only: assms)
  finally show "map p_id xs = map p_id ys" by (simp add: p_id_unmarked)
  have "map (rule_line F) xs = map (rule_line F) (map unmarked_p xs)" by (simp add: rule_line_unmarked)
  also have "\<dots> = map (rule_line F) (map unmarked_p ys)" by (simp only: assms)
  finally show "map (rule_line F) xs = map (rule_line F) ys" by (simp add: rule_line_unmarked)
  from arg_cong[OF assms, of length] show "length xs = length ys" by simp
qed

lemma marked_at_mark [simp]: "marked_at now (mark_entity now c ent)"
  by (simp add: marked_at_def mark_entity_def)

lemma keys_mark_loop: "map fst (get_entities (mark_loop now ps mem)) = map fst (get_entities mem)"
  by (induction ps arbitrary: mem) (auto simp: keys_dict_update)

lemma map_of_None_keys: "map fst es' = map fst es \<Longrightarrow> map_of es k = None \<Longrightarrow> map_of es' k = None"
  by (metis map_of_eq_None_iff set_map)

lemma mark_loop_marks:
  "map_of (get_entities (mark_loop now ps mem)) k = Some e' \<Longrightarrow>
   k \<in> p_id ` set ps \<or> (\<exists>e. map_of (get_entities mem) k = Some e \<and> marked_at now e) \<Longrightarrow>
   marked_at now e'"
proof (induction ps arbitrary: mem)
  case Nil
  then show ?case by auto
next
  case (Cons p rest)
  show ?case
  proof (cases "dict_has (p_id p) (get_entities mem)")
    case True
    let ?m1 = "mem\<lparr>entities := Some (dict_update (p_id p) (mark_entity now (p_confidence p)) (get_entities mem))\<rparr>"
    from True Cons.prems(1) have run: "map_of (get_entities (mark_loop now rest ?m1)) k = Some e'"
      by simp
    have "k \<in> p_id ` set rest \<or> (\<exists>e. map_of (get_entities ?m1) k = Some e \<and> marked_at now e)"
    proof (cases "k \<in> p_id ` set rest")
      case True
      then show ?thesis by simp
    next
      case False
      show ?thesis
      proof (cases "k = p_id p")
        case True
        with \<open>dict_has (p_id p) (get_entities mem)\<close> obtain e0 where "map_of (get_entities mem) k = Some e0"
          by (auto simp: dict_has_def)
        with True show ?thesis by (simp add: map_of_dict_update)
      next
        case kp: False
        with False Cons.prems(2) obtain e where "map_of (get_entities mem) k = Some e" "marked_at now e"
          by auto
        with kp show ?thesis by (simp add: map_of_dict_update)
      qed
    qed
    from Cons.IH[OF run this] show ?thesis .
  next
    case False
    with Cons.prems(1) have run: "map_of (get_entities (mark_loop now rest mem)) k = Some e'"
      by simp
    have "k \<noteq> p_id p"
    proof
      assume "k = p_id p"
      with False have "map_of (get_entities mem) k = None" by (simp add: dict_has_def)
      from map_of_None_keys[OF keys_mark_loop this] run show False by simp
    qed
    with Cons.prems(2) have "k \<in> p_id ` set rest \<or> (\<exists>e. map_of (get_entities mem) k = Some e \<and> marked_at now e)"
      by auto
    from Cons.IH[OF run this] show ?thesis .
  qed
qed

lemma promotable_of_mem:
  "p \<in> set (promotable_of es) \<Longrightarrow> (p_id p, p_pattern p) \<in> set es \<and> promotion_candidate (p_id p, p_pattern p) = Some p"
proof -
  assume "p \<in> set (promotable_of es)"
  then obtain x where x: "x \<in> set es" "promotion_candidate x = Some p"
    by (auto simp: promotable_of_def sort_by_confidence_def set_map_filter)
  obtain k e where "x = (k, e)" by (cases x)
  with x show ?thesis by (auto simp: promotion_candidate_Some)
qed

lemma promote_step:
  fixes F :: py_format and now :: clock
  assumes ne: "get_promotable_patterns st \<noteq> []" and doc: "claude_md st = Some doc"
    and dist: "distinct (map fst (store_of st))"
  defines "r \<equiv> update_claude_md F now False st"
  shows "fst r = Success (length (get_promotable_patterns st)) (backup_name now)"
    and "map unmarked_p (get_promotable_patterns (snd r)) = map unmarked_p (get_promotable_patterns st)"
    and "\<forall>p \<in> set (get_promotable_patterns (snd r)). marked_at now (p_pattern p)"
    and "claude_md (snd r) = Some (take (fst (find_insertion_point doc)) doc @
           learned_section now (map (rule_line F) (get_promotable_patterns st)) @
           drop (fst (snd (find_insertion_point doc))) doc)"
    and "distinct (map fst (store_of (snd r)))"
proof -
  let ?ps = "get_promotable_patterns st"
  from promotable_nonempty_doc[OF ne] obtain mem where mem: "memory_file st = Doc mem" by blast
  have r: "r = (Success (length ?ps) (backup_name now),
      mark_patterns_promoted now ?ps
        (st\<lparr>backups := (backups st)(backup_name now \<mapsto> doc),
            claude_md := Some (take (fst (find_insertion_point doc)) doc @
              learned_section now (map (rule_line F) ?ps) @
              drop (fst (snd (find_insertion_point doc))) doc)\<rparr>))"
    using ne doc by (simp add: r_def update_claude_md_def Let_def create_backup_def str_path_def)
  show "fst r = Success (length ?ps) (backup_name now)" by (simp add: r)
  have mf: "memory_file (snd r) = Doc (mark_loop now ?ps mem)"
    by (simp add: r mark_patterns_promoted_def file_exists_def mem)
  show c: "claude_md (snd r) = Some (take (fst (find_insertion_point doc)) doc @
           learned_section now (map (rule_line F) ?ps) @
           drop (fst (snd (find_insertion_point doc))) doc)"
    by (simp add: r mark_keeps_files)
  have so: "store_of (snd r) = get_entities (mark_loop now ?ps mem)"
    by (simp add: store_of_def mf)
  have so0: "store_of st = get_entities mem" by (simp add: store_of_def mem)
  show d: "distinct (map fst (store_of (snd r)))"
    using dist by (simp add: so so0 keys_mark_loop)
  have ps: "?ps = promotable_of (get_entities mem)" by (rule promotable_doc[OF mem])
  have ps2: "get_promotable_patterns (snd r) = promotable_of (get_entities (mark_loop now ?ps mem))"
    by (rule promotable_doc[OF mf])
  show u: "map unmarked_p (get_promotable_patterns (snd r)) = map unmarked_p ?ps"
    unfolding ps2 unfolding ps
    by (rule promotable_of_cong) (rule unmarked_store_mark_loop)
  show "\<forall>p \<in> set (get_promotable_patterns (snd r)). marked_at now (p_pattern p)"
  proof
    fix p assume p: "p \<in> set (get_promotable_patterns (snd r))"
    from p have "p_id p \<in> p_id ` set (get_promotable_patterns (snd r))" by blast
    also have "\<dots> = set (map p_id (get_promotable_patterns (snd r)))" by simp
    also have "\<dots> = set (map p_id ?ps)" using map_via_unmarked(1)[OF u] by simp
    finally have k: "p_id p \<in> p_id ` set ?ps" by simp
    from p have "(p_id p, p_pattern p) \<in> set (get_entities (mark_loop now ?ps mem))"
      unfolding ps2 by (auto dest: promotable_of_mem)
    with d have "map_of (get_entities (mark_loop now ?ps mem)) (p_id p) = Some (p_pattern p)"
      by (simp add: so)
    from mark_loop_marks[OF this] k show "marked_at now (p_pattern p)" by blast
  qed
qed

text \<open>
  Claim C10.  In a store with promotable patterns and a rules document, every run of a
  sequence of promote runs succeeds with the same number of rules, returns the same
  pattern ids as promotable although each of them is already marked as promoted, writes
  the section with their rendered rules into the rules document, and marks them as
  promoted again, with the time of that run.
\<close>

theorem promoted_patterns_are_promoted_again:
  assumes "get_promotable_patterns st \<noteq> []" and "claude_md st \<noteq> None"
    and "distinct (map fst (store_of st))" and "i < length nows"
  shows "fst (promote_runs F nows st ! i) =
           Success (length (get_promotable_patterns st)) (backup_name (nows ! i)) \<and>
         map p_id (get_promotable_patterns (snd (promote_runs F nows st ! i))) =
           map p_id (get_promotable_patterns st) \<and>
         (\<forall>p \<in> set (get_promotable_patterns (snd (promote_runs F nows st ! i))).
            promoted_to_claude_md (p_pattern p) = Some True \<and>
            promotion_date (p_pattern p) = Some (iso (nows ! i))) \<and>
         (\<exists>pre post. claude_md (snd (promote_runs F nows st ! i)) =
            Some (pre @ learned_section (nows ! i) (map (rule_line F) (get_promotable_patterns st)) @ post))"
  using assms
proof (induction nows arbitrary: st i)
  case Nil
  then show ?case by simp
next
  case (Cons now nows)
  from Cons.prems(2) obtain doc where doc: "claude_md st = Some doc" by blast
  note step = promote_step[OF Cons.prems(1) doc Cons.prems(3), of F now]
  let ?st2 = "snd (update_claude_md F now False st)"
  have u: "map unmarked_p (get_promotable_patterns ?st2) = map unmarked_p (get_promotable_patterns st)"
    by (rule step(2))
  note same = map_via_unmarked[OF u]
  show ?case
  proof (cases i)
    case 0
    have "\<exists>pre post. claude_md ?st2 =
        Some (pre @ learned_section now (map (rule_line F) (get_promotable_patterns st)) @ post)"
      using step(4) by blast
    with 0 step(1) same(1) step(3) show ?thesis
      by (simp add: marked_at_def)
  next
    case (Suc j)
    with Cons.prems(4) have j: "j < length nows" by simp
    have ne2: "get_promotable_patterns ?st2 \<noteq> []"
      using same(3) Cons.prems(1) by auto
    have doc2: "claude_md ?st2 \<noteq> None" using step(4) by simp
    from Cons.IH[OF ne2 doc2 step(5) j, unfolded same(1) same(2)[of F] same(3)] Suc
    show ?thesis by simp
  qed
qed

lemma st_doc_hyps:
  "get_promotable_patterns st_doc \<noteq> []" "claude_md st_doc \<noteq> None"
  "distinct (map fst (store_of st_doc))"
proof -
  show "get_promotable_patterns st_doc \<noteq> []"
    using length_promotable_st_p unfolding promotable_st_doc by auto
  show "claude_md st_doc \<noteq> None" by (simp add: st_doc_def)
  show "distinct (map fst (store_of st_doc))"
    by (simp add: st_doc_def store_of_def mem_p_def get_entities_def)
qed

theorem promoted_again_witness:
  "get_promotable_patterns st_doc \<noteq> [] \<and> claude_md st_doc \<noteq> None \<and>
   distinct (map fst (store_of st_doc)) \<and> (1::nat) < length [now0, now1] \<and>
   fst (promote_runs fmt0 [now0, now1] st_doc ! 1) = Success 2 (backup_name now1) \<and>
   map p_id (get_promotable_patterns (snd (promote_runs fmt0 [now0, now1] st_doc ! 1))) = [''d'', ''a''] \<and>
   list_all (\<lambda>p. promoted_to_claude_md (p_pattern p) = Some True \<and>
                 promotion_date (p_pattern p) = Some ''2025-01-02T09:00:00'')
     (get_promotable_patterns (snd (promote_runs fmt0 [now0, now1] st_doc ! 1)))"
proof -
  have i: "(1::nat) < length [now0, now1]" by simp
  from promoted_patterns_are_promoted_again[OF st_doc_hyps i, of fmt0]
  show ?thesis
    using st_doc_hyps
    by (simp add: list_all_iff length_promotable_st_p promotable_st_doc promotable_st_p now1_def)
qed

lemma load_memory_recovers:
  "memory_file st \<in> {Missing, Unreadable, Malformed} \<Longrightarrow> load_memory now st = Inr (default_memory now)"
  by (auto simp: load_memory_def file_exists_def)

lemma el_load_recovers:
  "memory_file st \<in> {Missing, Unreadable, Undecodable, Malformed} \<Longrightarrow> el_load st = el_default_memory"
  by (auto simp: el_load_def file_exists_def Let_def el_default_memory_def empty_memory_def)

text \<open>
  Claim C9.  \<open>load_memory\<close> of memory_learn.py catches \<open>OSError\<close> and
  \<open>json.JSONDecodeError\<close> only: on a store file whose bytes do not decode as text,
  \<open>json.load\<close> raises \<open>UnicodeDecodeError\<close>, and the caller gets the exception and no
  store.  The load at the start of \<open>enhanced_learn\<close> (enhanced_learn.py), with its bare
  \<open>except\<close>, gives the default store on the same file.
\<close>

theorem load_memory_undecodable_raises:
  "load_memory now0 st_undecodable = Inl UnicodeDecodeError \<and> el_load st_undecodable = el_default_memory"
  by (simp add: load_memory_def st_undecodable_def file_exists_def el_load_recovers)

lemma find5: "find_corrections txt5 = [\<lparr>f_type = ''always_rule'', f_match = PStr ''run tests'', f_text = txt5\<rparr>]"
  by code_simp

lemma ctx5: "detect_contexts el_context_keywords (lower txt5) = [''coding'']"
  by code_simp

text \<open>
  Claim C5.  Two calls of \<open>enhanced_learn\<close> on the same text within one second of the
  clock build the same id \<open>correction_<stamp>_0\<close>: the second call overwrites the record
  of the first, the store holds one record and the counter says two.
\<close>

theorem same_second_learn_overwrites:
  "map fst (store_of (snd (enhanced_learn now0 txt5 st_missing))) = [''correction_20250101_120000_0''] \<and>
   map fst (store_of (snd (enhanced_learn now0 txt5 (snd (enhanced_learn now0 txt5 st_missing))))) =
     [''correction_20250101_120000_0''] \<and>
   fst (enhanced_learn now0 txt5 (snd (enhanced_learn now0 txt5 st_missing))) = Inr (Stored_corrections 1 2)"
  by code_simp

end
